theory Spec2Isabelle
  imports Complex_Main "HOL-Library.Sublist"
begin

section \<open>The configuration record (docling_bedrock_plugin/pipeline_options.py)\<close>

text \<open>
  \<^verbatim>\<open>PictureDescriptionBedrockApiOptions\<close> extends the host's
  \<^verbatim>\<open>PictureDescriptionBaseOptions\<close>, whose declaration belongs to the host
  library; the inherited part is the type parameter \<open>'b\<close>. The class variable
  \<^verbatim>\<open>kind\<close> is a constant of the class, not a field of its instances. The two
  \<^verbatim>\<open>float\<close> fields only store a number here, so they are reals.
\<close>

record 'b PictureDescriptionBedrockApiOptions =
  base_options :: 'b
  model_id :: string
  region_name :: "string option"
  profile_name :: "string option"
  timeout :: real
  max_workers :: int
  temperature :: real
  max_tokens :: int
  top_k :: int
  prompt :: string
  provenance :: string

definition kind :: string where
  "kind = ''bedrock_api''"

text \<open>The instance every field of which has its declared default.\<close>

definition default_options :: "'b \<Rightarrow> 'b PictureDescriptionBedrockApiOptions" where
  "default_options b =
     \<lparr> base_options = b,
       model_id = ''anthropic.claude-3-sonnet-20240229-v1:0'',
       region_name = None,
       profile_name = None,
       timeout = 30,
       max_workers = 3,
       temperature = 0.5,
       max_tokens = 200,
       top_k = 250,
       prompt = ''Describe this image in a few sentences.'',
       provenance = ''amazon-bedrock'' \<rparr>"

section \<open>The host document: pictures, captions, annotations\<close>

text \<open>
  The nodes of the host's document model, reduced to the attributes that
  \<^verbatim>\<open>add_bedrock_picture_descriptions\<close> reads or writes. A node is referred to by
  the string of its \<^verbatim>\<open>self_ref\<close>; a \<^verbatim>\<open>RefItem\<close> wraps such a string in its
  attribute \<^verbatim>\<open>cref\<close>.
\<close>

datatype RefItem = RefItem (cref: string)

datatype DocItemLabel = CAPTION | TEXT | OTHER_LABEL string

datatype annotation =
    PictureDescriptionData (pd_text: string) (pd_provenance: string)
  | OtherAnnotation string

record NodeItem =
  self_ref :: string
  parent :: "RefItem option"
  children :: "RefItem list"

record TextItem = NodeItem +
  label :: DocItemLabel
  orig :: string
  item_text :: string

record GroupItem = NodeItem +
  group_name :: string

record PictureItem = NodeItem +
  captions :: "RefItem list"
  annotations :: "annotation list"

record DoclingDocument =
  body :: GroupItem
  groups :: "GroupItem list"
  texts :: "TextItem list"
  pictures :: "PictureItem list"

text \<open>
  Python objects are shared by reference and mutated in place. A picture is therefore
  named by its position in \<^verbatim>\<open>doc.pictures\<close>, and the parent that receives a new
  child by where the search found it.
\<close>

datatype node = BodyNode | TextNode nat | GroupNode nat

datatype image = PILImage string

datatype exn = Exception (message: string)

text \<open>
  A call that was left by an exception has still made the mutations that came before
  the raise: both outcomes carry the document.
\<close>

datatype 'a outcome = Returned 'a | Raised exn 'a

fun state_of :: "'a outcome \<Rightarrow> 'a" where
  "state_of (Returned s) = s"
| "state_of (Raised e s) = s"

fun has_returned :: "'a outcome \<Rightarrow> bool" where
  "has_returned (Returned s) = True"
| "has_returned (Raised e s) = False"

section \<open>What the function calls outside this file\<close>

text \<open>
  The adapter object: its \<^verbatim>\<open>provenance\<close> attribute and its
  \<^verbatim>\<open>_annotate_images\<close>, consumed whole by \<^verbatim>\<open>list(...)\<close>, so that it either
  gives the list of descriptions or raises.
\<close>

record bedrock_model =
  model_provenance :: string
  annotate_images :: "image list \<Rightarrow> exn + string list"

text \<open>
  The collaborators are parameters:
  \<^item> \<open>model_init\<close>: the constructor \<^verbatim>\<open>PictureDescriptionBedrockApiModel(...)\<close>,
    given \<^verbatim>\<open>enable_remote_services\<close> and the options;
  \<^item> \<open>get_image\<close>: \<^verbatim>\<open>picture.get_image(doc=doc)\<close>, which raises, gives
    \<^verbatim>\<open>None\<close> or gives an image;
  \<^item> \<open>ref_attr\<close>: the read \<^verbatim>\<open>caption_ref_list[0].ref\<close> of line 134. The same file
    builds a \<^verbatim>\<open>RefItem\<close> with \<^verbatim>\<open>cref=\<close> (line 160) and reads
    \<^verbatim>\<open>picture.parent.cref\<close> (line 140); whether the host's class also answers to
    \<^verbatim>\<open>ref\<close> is the host's matter, so the read either gives a string or raises;
  \<^item> \<open>image_open\<close>: \<^verbatim>\<open>Image.open(image_path)\<close>.
\<close>

record 'b host =
  model_init :: "bool \<Rightarrow> 'b PictureDescriptionBedrockApiOptions \<Rightarrow> exn + bedrock_model"
  get_image :: "DoclingDocument \<Rightarrow> PictureItem \<Rightarrow> exn + image option"
  ref_attr :: "RefItem \<Rightarrow> exn + string"
  image_open :: "string \<Rightarrow> exn + image"

section \<open>Strings\<close>

definition startswith :: "string \<Rightarrow> string \<Rightarrow> bool" where
  "startswith s p = (take (length p) s = p)"

definition is_space :: "char \<Rightarrow> bool" where
  "is_space c = (c \<in> set [CHR 0x09, CHR 0x0A, CHR 0x0B, CHR 0x0C, CHR 0x0D,
                             CHR 0x1C, CHR 0x1D, CHR 0x1E, CHR 0x1F, CHR '' ''])"

definition strip :: "string \<Rightarrow> string" where
  "strip s = rev (dropWhile is_space (rev (dropWhile is_space s)))"

definition description_prefix :: string where
  "description_prefix = [CHR 0x0A, CHR 0x0A] @ ''Image Description: ''"

definition digit_char :: "nat \<Rightarrow> char" where
  "digit_char d = char_of (48 + d)"

fun str_nat :: "nat \<Rightarrow> string" where
  "str_nat n = (if n < 10 then [digit_char n] else str_nat (n div 10) @ [digit_char (n mod 10)])"

section \<open>The host's \<^verbatim>\<open>add_text\<close>\<close>

text \<open>
  \<^verbatim>\<open>next((t for t in items if t.self_ref == r), None)\<close>: the position of the first
  item that has the reference.
\<close>

fun next_where :: "('a \<Rightarrow> bool) \<Rightarrow> 'a list \<Rightarrow> nat option" where
  "next_where P [] = None"
| "next_where P (x # xs) = (if P x then Some 0 else map_option Suc (next_where P xs))"

definition node_ref :: "DoclingDocument \<Rightarrow> node \<Rightarrow> string" where
  "node_ref doc n =
     (case n of
        BodyNode \<Rightarrow> self_ref (body doc)
      | TextNode k \<Rightarrow> self_ref (texts doc ! k)
      | GroupNode k \<Rightarrow> self_ref (groups doc ! k))"

definition append_child :: "DoclingDocument \<Rightarrow> node \<Rightarrow> RefItem \<Rightarrow> DoclingDocument" where
  "append_child doc n r =
     (case n of
        BodyNode \<Rightarrow> doc\<lparr>body := (body doc)\<lparr>children := children (body doc) @ [r]\<rparr>\<rparr>
      | TextNode k \<Rightarrow>
          doc\<lparr>texts := (texts doc)[k := (texts doc ! k)\<lparr>children := children (texts doc ! k) @ [r]\<rparr>]\<rparr>
      | GroupNode k \<Rightarrow>
          doc\<lparr>groups := (groups doc)[k := (groups doc ! k)\<lparr>children := children (groups doc ! k) @ [r]\<rparr>]\<rparr>)"

text \<open>
  \<^verbatim>\<open>doc.add_text(text=..., label=..., parent=...)\<close> of the host library, for a label
  that it does not hand to a more special method and a parent that is given: the new
  item takes the reference \<^verbatim>\<open>#/texts/<len(texts)>\<close>, is appended to
  \<^verbatim>\<open>doc.texts\<close> and registered as the last child of the parent; the item is returned.
\<close>

definition add_text :: "DoclingDocument \<Rightarrow> string \<Rightarrow> DocItemLabel \<Rightarrow> node \<Rightarrow> DoclingDocument \<times> TextItem" where
  "add_text doc txt lbl parent_item =
     (let text_index = length (texts doc);
          new_ref = ''#/texts/'' @ str_nat text_index;
          text_item = \<lparr> self_ref = new_ref,
                        parent = Some (RefItem (node_ref doc parent_item)),
                        children = [],
                        label = lbl, orig = txt, item_text = txt \<rparr>;
          doc1 = doc\<lparr>texts := texts doc @ [text_item]\<rparr>
      in (append_child doc1 parent_item (RefItem new_ref), text_item))"

section \<open>\<^verbatim>\<open>add_bedrock_picture_descriptions\<close> (examples/bedrock_image_description.py)\<close>

text \<open>
  Lines 92 to 101: the pictures whose image was retrieved, each with its image, in the
  order of \<^verbatim>\<open>doc.pictures\<close>. A picture whose \<^verbatim>\<open>get_image\<close> raises or gives
  \<^verbatim>\<open>None\<close> is logged and skipped.
\<close>

fun extract_images :: "'b host \<Rightarrow> DoclingDocument \<Rightarrow> (nat \<times> PictureItem) list \<Rightarrow> (nat \<times> image) list" where
  "extract_images h doc [] = []"
| "extract_images h doc ((i, picture) # rest) =
     (case get_image h doc picture of
        Inr (Some img) \<Rightarrow> (i, img) # extract_images h doc rest
      | Inr None \<Rightarrow> extract_images h doc rest
      | Inl e \<Rightarrow> extract_images h doc rest)"

definition pictures_to_process :: "'b host \<Rightarrow> DoclingDocument \<Rightarrow> nat list" where
  "pictures_to_process h doc = map fst (extract_images h doc (enumerate 0 (pictures doc)))"

definition images_to_process :: "'b host \<Rightarrow> DoclingDocument \<Rightarrow> image list" where
  "images_to_process h doc = map snd (extract_images h doc (enumerate 0 (pictures doc)))"

definition update_picture :: "nat \<Rightarrow> (PictureItem \<Rightarrow> PictureItem) \<Rightarrow> DoclingDocument \<Rightarrow> DoclingDocument" where
  "update_picture i f doc = doc\<lparr>pictures := (pictures doc)[i := f (pictures doc ! i)]\<rparr>"

text \<open>Line 119: the guard on the returned string.\<close>

definition accepted :: "string \<Rightarrow> bool" where
  "accepted description =
     (\<not> startswith description ''Error'' \<and> \<not> startswith description ''Unsupported'')"

text \<open>Lines 140 to 149: the node that becomes the parent of a new caption.\<close>

definition find_parent :: "DoclingDocument \<Rightarrow> PictureItem \<Rightarrow> node" where
  "find_parent doc picture =
     (case parent picture of
        None \<Rightarrow> BodyNode
      | Some p \<Rightarrow>
          if cref p = [] then BodyNode
          else (case next_where (\<lambda>t. self_ref t = cref p) (texts doc) of
                  Some k \<Rightarrow> TextNode k
                | None \<Rightarrow>
                    (case next_where (\<lambda>g. self_ref g = cref p) (groups doc) of
                       Some k \<Rightarrow> GroupNode k
                     | None \<Rightarrow> BodyNode)))"

text \<open>
  Lines 119 to 160, the body of the loop for the picture at position \<open>i\<close> and its
  description. Every item of \<^verbatim>\<open>doc.texts\<close> is a \<^verbatim>\<open>TextItem\<close> of the host, so the
  test of line 136 fails only when the search found nothing. The item that
  \<^verbatim>\<open>add_text\<close> returns is an object, which Python takes as true in line 159.
\<close>

definition splice_description :: "'b host \<Rightarrow> string \<Rightarrow> DoclingDocument \<Rightarrow> nat \<Rightarrow> string \<Rightarrow> DoclingDocument outcome" where
  "splice_description h prov doc i description =
     (if accepted description then
        (let doc1 = update_picture i
                      (\<lambda>p. p\<lparr>annotations := annotations p @ [PictureDescriptionData description prov]\<rparr>) doc;
             picture = pictures doc1 ! i
         in case captions picture of
              c # _ \<Rightarrow>
                (case ref_attr h c of
                   Inl e \<Rightarrow> Raised e doc1
                 | Inr caption_item_ref \<Rightarrow>
                     (case next_where (\<lambda>t. self_ref t = caption_item_ref) (texts doc1) of
                        None \<Rightarrow> Returned doc1
                      | Some k \<Rightarrow>
                          Returned (doc1\<lparr>texts := (texts doc1)
                            [k := (texts doc1 ! k)\<lparr>item_text :=
                                     item_text (texts doc1 ! k) @ description_prefix @ description\<rparr>]\<rparr>)))
            | [] \<Rightarrow>
                (let parent_item = find_parent doc1 picture;
                     (doc2, new_caption_item) =
                        add_text doc1 (strip description_prefix @ description) CAPTION parent_item
                 in Returned (update_picture i
                      (\<lambda>p. p\<lparr>captions := captions p @ [RefItem (self_ref new_caption_item)]\<rparr>) doc2)))
      else Returned doc)"

text \<open>Line 118: the loop over \<^verbatim>\<open>zip(pictures_to_process, descriptions)\<close>.\<close>

fun splice_descriptions :: "'b host \<Rightarrow> string \<Rightarrow> DoclingDocument \<Rightarrow> (nat \<times> string) list \<Rightarrow> DoclingDocument outcome" where
  "splice_descriptions h prov doc [] = Returned doc"
| "splice_descriptions h prov doc ((i, description) # rest) =
     (case splice_description h prov doc i description of
        Raised e doc' \<Rightarrow> Raised e doc'
      | Returned doc' \<Rightarrow> splice_descriptions h prov doc' rest)"

definition add_bedrock_picture_descriptions ::
  "'b host \<Rightarrow> DoclingDocument \<Rightarrow> 'b PictureDescriptionBedrockApiOptions \<Rightarrow> bool \<Rightarrow> DoclingDocument outcome" where
  "add_bedrock_picture_descriptions h doc bedrock_options enable_remote_services =
     (if \<not> enable_remote_services then Returned doc
      else
        (case model_init h enable_remote_services bedrock_options of
           Inl e \<Rightarrow> Returned doc
         | Inr model \<Rightarrow>
             if images_to_process h doc = [] then Returned doc
             else
               (case annotate_images model (images_to_process h doc) of
                  Inl e \<Rightarrow> Returned doc
                | Inr descriptions \<Rightarrow>
                    splice_descriptions h (model_provenance model) doc
                      (zip (pictures_to_process h doc) descriptions))))"

section \<open>\<^verbatim>\<open>describe_image\<close> (examples/image_description.py)\<close>

text \<open>The options that \<^verbatim>\<open>describe_image\<close> builds before its \<^verbatim>\<open>try\<close>.\<close>

definition describe_options :: "'b \<Rightarrow> 'b PictureDescriptionBedrockApiOptions" where
  "describe_options b =
     (default_options b)
       \<lparr> model_id := ''anthropic.claude-3-sonnet-20240229-v1:0'',
         prompt := ''Describe this image concisely. Include main visual elements and context.'',
         max_tokens := 250,
         temperature := 0.3 \<rparr>"

text \<open>Lines 45 to 68, the body of the \<^verbatim>\<open>try\<close>: it gives a string or raises.\<close>

definition describe_image_body :: "'b host \<Rightarrow> 'b \<Rightarrow> string \<Rightarrow> exn + string" where
  "describe_image_body h b image_path =
     (case model_init h True (describe_options b) of
        Inl e \<Rightarrow> Inl e
      | Inr model \<Rightarrow>
          (case image_open h image_path of
             Inl e \<Rightarrow> Inl e
           | Inr img \<Rightarrow>
               (case annotate_images model [img] of
                  Inl e \<Rightarrow> Inl e
                | Inr results \<Rightarrow>
                    (case results of
                       description # _ \<Rightarrow> Inr description
                     | [] \<Rightarrow> Inr ''No description was generated''))))"

text \<open>
  Lines 44 to 72: the handler of \<^verbatim>\<open>except Exception\<close> turns every exception of the
  body into a string, so the function itself gives a string or raises.
\<close>

definition describe_image :: "'b host \<Rightarrow> 'b \<Rightarrow> string \<Rightarrow> exn + string" where
  "describe_image h b image_path =
     (case describe_image_body h b image_path of
        Inr s \<Rightarrow> Inr s
      | Inl e \<Rightarrow> Inr (''Error: '' @ message e))"

section \<open>Notions used in the statements\<close>

text \<open>
  The test of lines 94 and 95, inside the \<^verbatim>\<open>try\<close> of line 93: the picture goes
  into the batch when \<^verbatim>\<open>get_image\<close> returns an image.
\<close>

definition has_image :: "'b host \<Rightarrow> DoclingDocument \<Rightarrow> PictureItem \<Rightarrow> bool" where
  "has_image h doc picture =
     (case get_image h doc picture of Inr (Some img) \<Rightarrow> True | Inr None \<Rightarrow> False | Inl e \<Rightarrow> False)"

text \<open>
  How the list of texts changes over a run: items are only added at the end, and an
  item that was there keeps its reference and label while its text is only extended.
\<close>

definition texts_extend :: "TextItem list \<Rightarrow> TextItem list \<Rightarrow> bool" where
  "texts_extend ts ts' =
     (length ts \<le> length ts' \<and>
      (\<forall>k<length ts. self_ref (ts' ! k) = self_ref (ts ! k) \<and> label (ts' ! k) = label (ts ! k) \<and>
          prefix (item_text (ts ! k)) (item_text (ts' ! k))))"

text \<open>
  Modelled from the spec: the constructor of the adapter class
  \<^verbatim>\<open>PictureDescriptionBedrockApiModel\<close>, whose module
  \<^verbatim>\<open>docling_bedrock_plugin/picture_description_model.py\<close> is not among the sources.
  The spec has the provenance tag of the configuration record "recorded alongside
  generated text indicating which system produced it": the adapter that is built from
  the options carries their tag. Whether the construction fails (\<open>fails\<close>) and what the
  remote calls answer (\<open>annotate\<close>) are left open.
\<close>

definition PictureDescriptionBedrockApiModel ::
  "(bool \<Rightarrow> 'b PictureDescriptionBedrockApiOptions \<Rightarrow> exn option) \<Rightarrow>
   ('b PictureDescriptionBedrockApiOptions \<Rightarrow> image list \<Rightarrow> exn + string list) \<Rightarrow>
   bool \<Rightarrow> 'b PictureDescriptionBedrockApiOptions \<Rightarrow> exn + bedrock_model" where
  "PictureDescriptionBedrockApiModel fails annotate enable_remote_services options =
     (case fails enable_remote_services options of
        Some e \<Rightarrow> Inl e
      | None \<Rightarrow> Inr \<lparr> model_provenance = provenance options,
                       annotate_images = annotate options \<rparr>)"

section \<open>A small document and two hosts\<close>

definition example_picture :: "string \<Rightarrow> RefItem list \<Rightarrow> annotation list \<Rightarrow> PictureItem" where
  "example_picture r cs as =
     \<lparr> self_ref = r, parent = Some (RefItem ''#/body''), children = [],
       captions = cs, annotations = as \<rparr>"

text \<open>
  One caption text and two pictures: the first has no caption and one annotation of
  another kind, the second refers to the caption.
\<close>

definition example_doc :: DoclingDocument where
  "example_doc =
     \<lparr> body = \<lparr> self_ref = ''#/body'', parent = None, children = [], group_name = ''_root_'' \<rparr>,
       groups = [],
       texts = [\<lparr> self_ref = ''#/texts/0'', parent = Some (RefItem ''#/body''), children = [],
                  label = CAPTION, orig = ''Figure 1'', item_text = ''Figure 1'' \<rparr>],
       pictures = [example_picture ''#/pictures/0'' [] [OtherAnnotation ''classification''],
                   example_picture ''#/pictures/1'' [RefItem ''#/texts/0''] []] \<rparr>"

text \<open>A document whose only picture has no caption yet.\<close>

definition plain_doc :: DoclingDocument where
  "plain_doc = example_doc\<lparr> texts := [], pictures := [example_picture ''#/pictures/0'' [] []] \<rparr>"

text \<open>A document whose only picture has a caption.\<close>

definition captioned_doc :: DoclingDocument where
  "captioned_doc = example_doc\<lparr> pictures := [example_picture ''#/pictures/0'' [RefItem ''#/texts/0''] []] \<rparr>"

text \<open>
  An adapter that answers each image from a table, one description per image in the
  order of the batch, and an image that is not in the table with an error string.
\<close>

definition answer :: "(string \<times> string) list \<Rightarrow> image \<Rightarrow> string" where
  "answer table img =
     (case img of PILImage s \<Rightarrow>
        (case map_of table s of Some d \<Rightarrow> d | None \<Rightarrow> ''Error: no response''))"

definition example_model :: "(string \<times> string) list \<Rightarrow> bedrock_model" where
  "example_model table =
     \<lparr> model_provenance = ''amazon-bedrock'',
       annotate_images = (\<lambda>imgs. Inr (map (answer table) imgs)) \<rparr>"

text \<open>A host on which every call succeeds; \<^verbatim>\<open>.ref\<close> reads the reference.\<close>

definition example_host :: "(string \<times> string) list \<Rightarrow> unit host" where
  "example_host table =
     \<lparr> model_init = (\<lambda>enable_remote_services options. Inr (example_model table)),
       get_image = (\<lambda>doc picture. Inr (Some (PILImage (self_ref picture)))),
       ref_attr = (\<lambda>r. Inr (cref r)),
       image_open = (\<lambda>path. Inr (PILImage path)) \<rparr>"

text \<open>The same host with a \<^verbatim>\<open>RefItem\<close> that has no attribute \<^verbatim>\<open>ref\<close>.\<close>

definition strict_host :: "(string \<times> string) list \<Rightarrow> unit host" where
  "strict_host table =
     (example_host table)
       \<lparr> ref_attr := (\<lambda>r. Inl (Exception ''RefItem object has no attribute ref'')) \<rparr>"

section \<open>Lemmas\<close>

lemma texts_extend_refl: "texts_extend ts ts"
  by (simp add: texts_extend_def)

lemma texts_extend_trans: "texts_extend a b \<Longrightarrow> texts_extend b c \<Longrightarrow> texts_extend a c"
  unfolding texts_extend_def
  by (metis (no_types, lifting) order_less_le_trans order_trans prefix_order.order_trans)

lemma next_where_Some: "next_where P xs = Some k \<Longrightarrow> k < length xs \<and> P (xs ! k)"
  by (induction xs arbitrary: k) (auto split: if_splits)

lemma pictures_update_picture: "pictures (update_picture i f doc) = (pictures doc)[i := f (pictures doc ! i)]"
  by (simp add: update_picture_def)

lemma texts_update_picture: "texts (update_picture i f doc) = texts doc"
  by (simp add: update_picture_def)

lemma pictures_append_child: "pictures (append_child doc n r) = pictures doc"
  by (simp add: append_child_def split: node.splits)

lemma pictures_add_text: "pictures (fst (add_text doc t l n)) = pictures doc"
  by (simp add: add_text_def Let_def pictures_append_child)

lemma self_ref_add_text: "self_ref (snd (add_text doc t l n)) = ''#/texts/'' @ str_nat (length (texts doc))"
  by (simp add: add_text_def Let_def)

lemma length_texts_append_child: "length (texts (append_child doc n r)) = length (texts doc)"
  by (simp add: append_child_def split: node.splits)

lemma texts_append_child_nth:
  assumes "k < length (texts doc)"
  shows "self_ref (texts (append_child doc n r) ! k) = self_ref (texts doc ! k) \<and>
     label (texts (append_child doc n r) ! k) = label (texts doc ! k) \<and>
     item_text (texts (append_child doc n r) ! k) = item_text (texts doc ! k)"
proof (cases n)
  case (TextNode j)
  with assms show ?thesis by (cases "j = k") (simp_all add: append_child_def)
qed (simp_all add: append_child_def)

lemma length_texts_add_text: "length (texts (fst (add_text doc t l n))) = Suc (length (texts doc))"
  by (simp add: add_text_def Let_def length_texts_append_child)

lemma texts_add_text_old:
  "k < length (texts doc) \<Longrightarrow>
     self_ref (texts (fst (add_text doc t l n)) ! k) = self_ref (texts doc ! k) \<and>
     label (texts (fst (add_text doc t l n)) ! k) = label (texts doc ! k) \<and>
     item_text (texts (fst (add_text doc t l n)) ! k) = item_text (texts doc ! k)"
  by (simp add: add_text_def Let_def texts_append_child_nth nth_append)

lemma texts_add_text_new:
  "self_ref (texts (fst (add_text doc t l n)) ! length (texts doc)) = ''#/texts/'' @ str_nat (length (texts doc)) \<and>
   label (texts (fst (add_text doc t l n)) ! length (texts doc)) = l \<and>
   item_text (texts (fst (add_text doc t l n)) ! length (texts doc)) = t"
  by (simp add: add_text_def Let_def texts_append_child_nth nth_append)


lemma splice_description_rejected:
  "\<not> accepted d \<Longrightarrow> splice_description h prov doc i d = Returned doc"
  by (simp add: splice_description_def)

lemma length_pictures_splice_description:
  "length (pictures (state_of (splice_description h prov doc i d))) = length (pictures doc)"
  by (simp add: splice_description_def Let_def pictures_update_picture pictures_add_text
        case_prod_beta split: list.splits sum.splits option.splits)

lemma picture_other_splice_description:
  "j \<noteq> i \<Longrightarrow> pictures (state_of (splice_description h prov doc i d)) ! j = pictures doc ! j"
  by (simp add: splice_description_def Let_def pictures_update_picture pictures_add_text
        case_prod_beta split: list.splits sum.splits option.splits)

lemma annotations_splice_description:
  "j < length (pictures doc) \<Longrightarrow>
     annotations (pictures (state_of (splice_description h prov doc i d)) ! j) =
     annotations (pictures doc ! j) @
       (if j = i \<and> accepted d then [PictureDescriptionData d prov] else [])"
  by (cases "j = i")
     (simp_all add: splice_description_def Let_def pictures_update_picture pictures_add_text
        case_prod_beta split: list.splits sum.splits option.splits)

lemma captions_splice_description:
  "j < length (pictures doc) \<Longrightarrow>
     captions (pictures (state_of (splice_description h prov doc i d)) ! j) =
     captions (pictures doc ! j) @
       (if j = i \<and> accepted d \<and> captions (pictures doc ! j) = []
        then [RefItem (''#/texts/'' @ str_nat (length (texts doc)))] else [])"
  by (cases "j = i")
     (simp_all add: splice_description_def Let_def pictures_update_picture pictures_add_text
        texts_update_picture self_ref_add_text
        case_prod_beta split: list.splits sum.splits option.splits)


lemma next_where_iff:
  "next_where P xs = Some k \<longleftrightarrow> k < length xs \<and> P (xs ! k) \<and> (\<forall>j<k. \<not> P (xs ! j))"
proof (induction xs arbitrary: k)
  case Nil
  show ?case by simp
next
  case (Cons x xs)
  show ?case
  proof (cases "P x")
    case True
    then show ?thesis by (cases k) auto
  next
    case False
    show ?thesis
    proof (cases k)
      case 0
      with False show ?thesis by simp
    next
      case (Suc m)
      have "(\<forall>j<Suc m. \<not> P ((x # xs) ! j)) \<longleftrightarrow> (\<forall>j<m. \<not> P (xs ! j))"
        using False by (auto simp: less_Suc_eq_0_disj)
      with False Suc Cons.IH [of m] show ?thesis by auto
    qed
  qed
qed

lemma next_where_texts_extend:
  assumes "next_where (\<lambda>t. self_ref t = r) ts = Some k" and "texts_extend ts ts'"
  shows "next_where (\<lambda>t. self_ref t = r) ts' = Some k"
proof -
  from assms(1) have k: "k < length ts" "self_ref (ts ! k) = r" "\<forall>j<k. self_ref (ts ! j) \<noteq> r"
    by (simp_all add: next_where_iff)
  from assms(2) have len: "length ts \<le> length ts'"
    and same: "\<And>j. j < length ts \<Longrightarrow> self_ref (ts' ! j) = self_ref (ts ! j)"
    by (simp_all add: texts_extend_def)
  have "k < length ts'" using k(1) len by simp
  moreover have "self_ref (ts' ! k) = r" using k(1,2) same by simp
  moreover have "\<forall>j<k. self_ref (ts' ! j) \<noteq> r" using k(1,3) same by simp
  ultimately show ?thesis by (simp add: next_where_iff)
qed

lemma texts_extend_splice_description:
  "texts_extend (texts doc) (texts (state_of (splice_description h prov doc i d)))"
proof (cases "accepted d")
  case False
  then show ?thesis by (simp add: splice_description_rejected texts_extend_refl)
next
  case True
  let ?doc1 = "update_picture i
      (\<lambda>p. p\<lparr>annotations := annotations p @ [PictureDescriptionData d prov]\<rparr>) doc"
  show ?thesis
  proof (cases "captions (pictures ?doc1 ! i)")
    case Nil
    with True show ?thesis
      by (simp add: splice_description_def Let_def case_prod_beta texts_update_picture
            texts_extend_def length_texts_add_text texts_add_text_old)
  next
    case (Cons c cs)
    show ?thesis
    proof (cases "ref_attr h c")
      case (Inl e)
      with True Cons show ?thesis
        by (simp add: splice_description_def Let_def texts_update_picture texts_extend_refl)
    next
      case (Inr r)
      show ?thesis
      proof (cases "next_where (\<lambda>t. self_ref t = r) (texts doc)")
        case None
        with True Cons Inr show ?thesis
          by (simp add: splice_description_def Let_def texts_update_picture texts_extend_refl)
      next
        case (Some k)
        from next_where_Some [OF Some] have "k < length (texts doc)" by simp
        with True Cons Inr Some show ?thesis
          by (simp add: splice_description_def Let_def texts_update_picture texts_extend_def
                nth_list_update)
      qed
    qed
  qed
qed

lemma splice_description_new_caption:
  assumes "accepted d" and "i < length (pictures doc)" and "captions (pictures doc ! i) = []"
  shows "\<exists>doc'. splice_description h prov doc i d = Returned doc' \<and>
           length (texts doc') = Suc (length (texts doc)) \<and>
           self_ref (texts doc' ! length (texts doc)) = ''#/texts/'' @ str_nat (length (texts doc)) \<and>
           label (texts doc' ! length (texts doc)) = CAPTION \<and>
           item_text (texts doc' ! length (texts doc)) = strip description_prefix @ d"
proof -
  define doc1 where "doc1 = update_picture i
      (\<lambda>p. p\<lparr>annotations := annotations p @ [PictureDescriptionData d prov]\<rparr>) doc"
  define added where "added = add_text doc1 (strip description_prefix @ d) CAPTION
      (find_parent doc1 (pictures doc1 ! i))"
  define doc' where "doc' = update_picture i
      (\<lambda>p. p\<lparr>captions := captions p @ [RefItem (self_ref (snd added))]\<rparr>) (fst added)"
  have t1: "texts doc1 = texts doc"
    by (simp add: doc1_def texts_update_picture)
  have "captions (pictures doc1 ! i) = []"
    using assms(2,3) by (simp add: doc1_def pictures_update_picture)
  then have run: "splice_description h prov doc i d = Returned doc'"
    using assms(1) by (simp add: splice_description_def Let_def case_prod_beta doc1_def added_def doc'_def)
  have t2: "texts doc' = texts (fst added)"
    by (simp add: doc'_def texts_update_picture)
  have "length (texts doc') = Suc (length (texts doc))"
    by (simp add: t2 added_def length_texts_add_text t1)
  moreover have "self_ref (texts doc' ! length (texts doc)) = ''#/texts/'' @ str_nat (length (texts doc))
      \<and> label (texts doc' ! length (texts doc)) = CAPTION
      \<and> item_text (texts doc' ! length (texts doc)) = strip description_prefix @ d"
    using texts_add_text_new [of doc1 "strip description_prefix @ d" CAPTION "find_parent doc1 (pictures doc1 ! i)"]
    by (simp add: t2 added_def t1)
  ultimately show ?thesis using run by simp
qed

lemma splice_description_old_caption:
  assumes "accepted d" and "i < length (pictures doc)" and "captions (pictures doc ! i) = c # cs"
    and "ref_attr h c = Inr r" and "next_where (\<lambda>t. self_ref t = r) (texts doc) = Some k"
  shows "\<exists>doc'. splice_description h prov doc i d = Returned doc' \<and>
           item_text (texts doc' ! k) = item_text (texts doc ! k) @ description_prefix @ d"
  using assms next_where_Some [OF assms(5)]
  by (simp add: splice_description_def Let_def pictures_update_picture texts_update_picture)


subsection \<open>The loop\<close>

lemma splice_descriptions_append:
  "splice_descriptions h prov doc (xs @ ys) =
     (case splice_descriptions h prov doc xs of
        Raised e s \<Rightarrow> Raised e s
      | Returned s \<Rightarrow> splice_descriptions h prov s ys)"
  by (induction xs arbitrary: doc) (auto split: outcome.splits)

lemma state_of_splice_descriptions_Cons:
  "state_of (splice_descriptions h prov doc ((i, d) # rest)) =
     (if has_returned (splice_description h prov doc i d)
      then state_of (splice_descriptions h prov (state_of (splice_description h prov doc i d)) rest)
      else state_of (splice_description h prov doc i d))"
  by (cases "splice_description h prov doc i d") simp_all

lemma length_pictures_splice_descriptions:
  "length (pictures (state_of (splice_descriptions h prov doc ps))) = length (pictures doc)"
proof (induction ps arbitrary: doc)
  case Nil
  show ?case by simp
next
  case (Cons p ps)
  obtain i d where p: "p = (i, d)" by (cases p)
  show ?case
    unfolding p state_of_splice_descriptions_Cons
    by (simp add: Cons.IH length_pictures_splice_description)
qed

lemma texts_extend_splice_descriptions:
  "texts_extend (texts doc) (texts (state_of (splice_descriptions h prov doc ps)))"
proof (induction ps arbitrary: doc)
  case Nil
  show ?case by (simp add: texts_extend_refl)
next
  case (Cons p ps)
  obtain i d where p: "p = (i, d)" by (cases p)
  have step: "texts_extend (texts doc) (texts (state_of (splice_description h prov doc i d)))"
    by (rule texts_extend_splice_description)
  show ?case
    unfolding p state_of_splice_descriptions_Cons
    using step Cons.IH [of "state_of (splice_description h prov doc i d)"]
    by (auto intro: texts_extend_trans)
qed

lemma picture_kept_splice_descriptions:
  assumes "\<And>d. (j, d) \<in> set ps \<Longrightarrow> \<not> accepted d"
  shows "pictures (state_of (splice_descriptions h prov doc ps)) ! j = pictures doc ! j"
  using assms
proof (induction ps arbitrary: doc)
  case Nil
  show ?case by simp
next
  case (Cons p ps)
  obtain i d where p: "p = (i, d)" by (cases p)
  have step: "pictures (state_of (splice_description h prov doc i d)) ! j = pictures doc ! j"
  proof (cases "i = j")
    case True
    with Cons.prems [of d] p have "\<not> accepted d" by simp
    then show ?thesis by (simp add: splice_description_rejected)
  next
    case False
    then show ?thesis by (simp add: picture_other_splice_description)
  qed
  have rest: "\<And>s. pictures (state_of (splice_descriptions h prov s ps)) ! j = pictures s ! j"
    using Cons.prems by (intro Cons.IH) simp
  show ?case
    unfolding p state_of_splice_descriptions_Cons
    using step rest by simp
qed

lemma annotations_splice_descriptions:
  assumes "splice_descriptions h prov doc ps = Returned doc'" and "j < length (pictures doc)"
  shows "annotations (pictures doc' ! j) =
           annotations (pictures doc ! j) @
           map (\<lambda>p. PictureDescriptionData (snd p) prov)
             (filter (\<lambda>p. fst p = j \<and> accepted (snd p)) ps)"
  using assms
proof (induction ps arbitrary: doc)
  case Nil
  then show ?case by simp
next
  case (Cons p ps)
  obtain i d where p: "p = (i, d)" by (cases p)
  from Cons.prems(1) obtain s where
    s: "splice_description h prov doc i d = Returned s" and
    rest: "splice_descriptions h prov s ps = Returned doc'"
    unfolding p by (auto split: outcome.splits)
  have len: "j < length (pictures s)"
    using length_pictures_splice_description [of h prov doc i d] s Cons.prems(2) by simp
  have "annotations (pictures s ! j) =
          annotations (pictures doc ! j) @
            (if j = i \<and> accepted d then [PictureDescriptionData d prov] else [])"
    using annotations_splice_description [OF Cons.prems(2), of h prov i d] s by simp
  with Cons.IH [OF rest len] show ?case
    unfolding p by auto
qed

lemma annotations_grow_splice_descriptions:
  assumes "j < length (pictures doc)"
  shows "\<exists>ds. set ds \<subseteq> {d. (j, d) \<in> set ps \<and> accepted d} \<and>
           annotations (pictures (state_of (splice_descriptions h prov doc ps)) ! j) =
             annotations (pictures doc ! j) @ map (\<lambda>d. PictureDescriptionData d prov) ds"
  using assms
proof (induction ps arbitrary: doc)
  case Nil
  show ?case by (intro exI [of _ "[]"]) simp
next
  case (Cons p ps)
  obtain i d where p: "p = (i, d)" by (cases p)
  let ?s = "state_of (splice_description h prov doc i d)"
  let ?new = "if j = i \<and> accepted d then [d] else []"
  have step: "annotations (pictures ?s ! j) =
      annotations (pictures doc ! j) @ map (\<lambda>d. PictureDescriptionData d prov) ?new"
    using annotations_splice_description [OF Cons.prems, of h prov i d] by simp
  have new: "set ?new \<subseteq> {d. (j, d) \<in> set (p # ps) \<and> accepted d}"
    by (auto simp: p)
  show ?case
  proof (cases "has_returned (splice_description h prov doc i d)")
    case False
    then show ?thesis
      unfolding p state_of_splice_descriptions_Cons
      using step new unfolding p by (intro exI [of _ ?new]) simp
  next
    case True
    have "j < length (pictures ?s)"
      using Cons.prems by (simp add: length_pictures_splice_description)
    from Cons.IH [OF this] obtain ds where
      ds: "set ds \<subseteq> {d. (j, d) \<in> set ps \<and> accepted d}"
        "annotations (pictures (state_of (splice_descriptions h prov ?s ps)) ! j) =
           annotations (pictures ?s ! j) @ map (\<lambda>d. PictureDescriptionData d prov) ds"
      by blast
    have "set (?new @ ds) \<subseteq> {d. (j, d) \<in> set (p # ps) \<and> accepted d}"
      using new ds(1) by auto
    moreover have "annotations (pictures (state_of (splice_descriptions h prov doc (p # ps))) ! j) =
        annotations (pictures doc ! j) @ map (\<lambda>d. PictureDescriptionData d prov) (?new @ ds)"
      unfolding p state_of_splice_descriptions_Cons using True ds(2) step by simp
    ultimately show ?thesis by blast
  qed
qed

lemma splice_descriptions_split:
  assumes "splice_descriptions h prov doc ps = Returned doc'" and "n < length ps"
  shows "\<exists>a b. splice_descriptions h prov doc (take n ps) = Returned a \<and>
           splice_description h prov a (fst (ps ! n)) (snd (ps ! n)) = Returned b \<and>
           splice_descriptions h prov b (drop (Suc n) ps) = Returned doc'"
proof -
  obtain i d where p: "ps ! n = (i, d)" by (cases "ps ! n")
  have "ps = take n ps @ (i, d) # drop (Suc n) ps"
    using id_take_nth_drop [OF assms(2)] p by simp
  then have whole: "splice_descriptions h prov doc (take n ps @ (i, d) # drop (Suc n) ps) = Returned doc'"
    using assms(1) by simp
  then obtain a where a: "splice_descriptions h prov doc (take n ps) = Returned a"
    and after: "splice_descriptions h prov a ((i, d) # drop (Suc n) ps) = Returned doc'"
    by (auto simp: splice_descriptions_append split: outcome.splits)
  from after obtain b where "splice_description h prov a i d = Returned b"
    and "splice_descriptions h prov b (drop (Suc n) ps) = Returned doc'"
    by (auto split: outcome.splits)
  with a p show ?thesis by simp
qed

lemma distinct_fst_nth:
  assumes "distinct (map fst ps)" and "n < length ps"
  shows "(fst (ps ! n), d) \<notin> set (take n ps)" and "(fst (ps ! n), d) \<notin> set (drop (Suc n) ps)"
proof -
  have other: "fst (ps ! m) \<noteq> fst (ps ! n)" if "m < length ps" "m \<noteq> n" for m
    using assms that nth_eq_iff_index_eq [of "map fst ps" m n] by simp
  show "(fst (ps ! n), d) \<notin> set (take n ps)"
  proof
    assume "(fst (ps ! n), d) \<in> set (take n ps)"
    then obtain m where "m < length (take n ps)" "take n ps ! m = (fst (ps ! n), d)"
      by (auto simp: in_set_conv_nth)
    then have "m < length ps" "m \<noteq> n" "fst (ps ! m) = fst (ps ! n)"
      using assms(2) by auto
    with other show False by blast
  qed
  show "(fst (ps ! n), d) \<notin> set (drop (Suc n) ps)"
  proof
    assume "(fst (ps ! n), d) \<in> set (drop (Suc n) ps)"
    then obtain m where "m < length (drop (Suc n) ps)" "drop (Suc n) ps ! m = (fst (ps ! n), d)"
      by (auto simp: in_set_conv_nth)
    then have "Suc n + m < length ps" "Suc n + m \<noteq> n" "fst (ps ! (Suc n + m)) = fst (ps ! n)"
      using assms(2) by auto
    with other show False by blast
  qed
qed

lemma fst_extract_images:
  "map fst (extract_images h doc xs) = map fst (filter (\<lambda>p. has_image h doc (snd p)) xs)"
  by (induction xs rule: extract_images.induct)
     (auto simp: has_image_def split: sum.splits option.splits)

lemma fst_filter_enumerate:
  "map fst (filter (\<lambda>p. P (snd p)) (enumerate k xs)) =
     filter (\<lambda>i. P (xs ! (i - k))) [k..<k + length xs]"
proof (induction xs arbitrary: k)
  case Nil
  show ?case by simp
next
  case (Cons x xs)
  have shift: "(x # xs) ! (i - k) = xs ! (i - Suc k)" if "Suc k \<le> i" for i
  proof -
    from that have "i - k = Suc (i - Suc k)" by simp
    then show ?thesis by simp
  qed
  have "filter (\<lambda>i. P ((x # xs) ! (i - k))) [Suc k..<Suc k + length xs] =
        filter (\<lambda>i. P (xs ! (i - Suc k))) [Suc k..<Suc k + length xs]"
  proof (rule filter_cong)
    show "[Suc k..<Suc k + length xs] = [Suc k..<Suc k + length xs]" by (rule refl)
  next
    fix i assume "i \<in> set [Suc k..<Suc k + length xs]"
    then have "Suc k \<le> i" by (simp only: set_upt atLeastLessThan_iff)
    then show "P ((x # xs) ! (i - k)) = P (xs ! (i - Suc k))" by (simp only: shift)
  qed
  moreover have "[k..<k + length (x # xs)] = k # [Suc k..<Suc k + length xs]"
    using upt_conv_Cons [of k "Suc (k + length xs)"] by (simp del: upt_Suc)
  ultimately show ?case
    using Cons.IH [of "Suc k"] by (simp del: upt_Suc)
qed

lemma pictures_to_process_eq:
  "pictures_to_process h doc =
     filter (\<lambda>i. has_image h doc (pictures doc ! i)) [0..<length (pictures doc)]"
  using fst_filter_enumerate [of "has_image h doc" 0 "pictures doc"]
  by (simp add: pictures_to_process_def fst_extract_images)

lemma distinct_pictures_to_process: "distinct (pictures_to_process h doc)"
  by (simp add: pictures_to_process_eq)

lemma pictures_to_process_less:
  "n < length (pictures_to_process h doc) \<Longrightarrow> pictures_to_process h doc ! n < length (pictures doc)"
  using nth_mem [of n "pictures_to_process h doc"] by (simp add: pictures_to_process_eq)

lemma length_images_to_process:
  "length (images_to_process h doc) = length (pictures_to_process h doc)"
  by (simp add: images_to_process_def pictures_to_process_def)

lemma add_bedrock_picture_descriptions_loop:
  assumes "model_init h True opts = Inr m"
    and "annotate_images m (images_to_process h doc) = Inr descs"
  shows "add_bedrock_picture_descriptions h doc opts True =
           splice_descriptions h (model_provenance m) doc (zip (pictures_to_process h doc) descs)"
proof (cases "images_to_process h doc = []")
  case True
  then have "pictures_to_process h doc = []"
    using length_images_to_process [of h doc] by simp
  with True assms show ?thesis
    by (simp add: add_bedrock_picture_descriptions_def)
next
  case False
  with assms show ?thesis
    by (simp add: add_bedrock_picture_descriptions_def)
qed

lemma distinct_fst_zip: "distinct xs \<Longrightarrow> distinct (map fst (zip xs ys))"
  by (simp add: map_fst_zip_take)

lemma images_to_process_empty:
  assumes "\<And>p. p \<in> set (pictures doc) \<Longrightarrow> \<not> has_image h doc p"
  shows "images_to_process h doc = []"
proof -
  have "pictures_to_process h doc = []"
    using assms by (simp add: pictures_to_process_eq filter_empty_conv)
  then show ?thesis
    using length_images_to_process [of h doc] by simp
qed

lemma add_bedrock_picture_descriptions_cases:
  "add_bedrock_picture_descriptions h doc opts ers = Returned doc \<or>
   (\<exists>m descs. ers \<and> model_init h True opts = Inr m \<and>
      annotate_images m (images_to_process h doc) = Inr descs \<and>
      add_bedrock_picture_descriptions h doc opts ers =
        splice_descriptions h (model_provenance m) doc (zip (pictures_to_process h doc) descs))"
  by (cases ers) (auto simp: add_bedrock_picture_descriptions_def split: sum.splits)

lemma zip_member_nth:
  assumes "distinct xs" and "n < length xs" and "n < length ys" and "(xs ! n, d) \<in> set (zip xs ys)"
  shows "d = ys ! n"
proof -
  from assms(4) obtain m where m: "m < length xs" "m < length ys" "xs ! m = xs ! n" "ys ! m = d"
    by (auto simp: set_zip)
  with assms(1,2) have "m = n" by (simp add: nth_eq_iff_index_eq)
  with m show ?thesis by simp
qed

lemma captions_kept_splice_descriptions:
  assumes "j < length (pictures doc)" and "captions (pictures doc ! j) \<noteq> []"
  shows "captions (pictures (state_of (splice_descriptions h prov doc ps)) ! j) = captions (pictures doc ! j)"
  using assms
proof (induction ps arbitrary: doc)
  case Nil
  show ?case by simp
next
  case (Cons p ps)
  obtain i d where p: "p = (i, d)" by (cases p)
  let ?s = "state_of (splice_description h prov doc i d)"
  have step: "captions (pictures ?s ! j) = captions (pictures doc ! j)"
    using captions_splice_description [OF Cons.prems(1), of h prov i d] Cons.prems(2) by simp
  have len: "j < length (pictures ?s)"
    using Cons.prems(1) by (simp add: length_pictures_splice_description)
  show ?case
    unfolding p state_of_splice_descriptions_Cons
    using step Cons.IH [OF len] Cons.prems(2) by simp
qed

lemma new_caption_splice_descriptions:
  assumes run: "splice_descriptions h prov doc ps = Returned doc'"
    and n: "n < length ps" and dist: "distinct (map fst ps)"
    and i: "fst (ps ! n) < length (pictures doc)"
    and acc: "accepted (snd (ps ! n))"
    and nocap: "captions (pictures doc ! fst (ps ! n)) = []"
  shows "\<exists>k. length (texts doc) \<le> k \<and> k < length (texts doc') \<and>
           captions (pictures doc' ! fst (ps ! n)) = [RefItem (self_ref (texts doc' ! k))] \<and>
           self_ref (texts doc' ! k) = ''#/texts/'' @ str_nat k \<and>
           label (texts doc' ! k) = CAPTION \<and>
           prefix (strip description_prefix @ snd (ps ! n)) (item_text (texts doc' ! k))"
proof -
  let ?i = "fst (ps ! n)" and ?d = "snd (ps ! n)"
  from splice_descriptions_split [OF run n] obtain a b where
    a: "splice_descriptions h prov doc (take n ps) = Returned a" and
    b: "splice_description h prov a ?i ?d = Returned b" and
    c: "splice_descriptions h prov b (drop (Suc n) ps) = Returned doc'"
    by blast
  have pa: "pictures a ! ?i = pictures doc ! ?i"
    using picture_kept_splice_descriptions [of ?i "take n ps" h prov doc]
      distinct_fst_nth(1) [OF dist n] a by simp
  have la: "length (pictures a) = length (pictures doc)"
    using length_pictures_splice_descriptions [of h prov doc "take n ps"] a by simp
  have ta: "texts_extend (texts doc) (texts a)"
    using texts_extend_splice_descriptions [of doc h prov "take n ps"] a by simp
  have ia: "?i < length (pictures a)" using i la by simp
  have ca: "captions (pictures a ! ?i) = []" using nocap pa by simp
  let ?k = "length (texts a)"
  from splice_description_new_caption [OF acc ia ca, of h prov] b
  have tb: "length (texts b) = Suc ?k"
    "self_ref (texts b ! ?k) = ''#/texts/'' @ str_nat ?k"
    "label (texts b ! ?k) = CAPTION"
    "item_text (texts b ! ?k) = strip description_prefix @ ?d"
    by simp_all
  have cb: "captions (pictures b ! ?i) = [RefItem (''#/texts/'' @ str_nat ?k)]"
    using captions_splice_description [OF ia, of h prov ?i ?d] b acc ca by simp
  have pc: "pictures doc' ! ?i = pictures b ! ?i"
    using picture_kept_splice_descriptions [of ?i "drop (Suc n) ps" h prov b]
      distinct_fst_nth(2) [OF dist n] c by simp
  have tc: "texts_extend (texts b) (texts doc')"
    using texts_extend_splice_descriptions [of b h prov "drop (Suc n) ps"] c by simp
  have kb: "?k < length (texts b)" using tb(1) by simp
  from tc kb have fin: "?k < length (texts doc')"
    "self_ref (texts doc' ! ?k) = self_ref (texts b ! ?k)"
    "label (texts doc' ! ?k) = label (texts b ! ?k)"
    "prefix (item_text (texts b ! ?k)) (item_text (texts doc' ! ?k))"
    by (simp_all add: texts_extend_def)
  have "length (texts doc) \<le> ?k" using ta by (simp add: texts_extend_def)
  moreover have "captions (pictures doc' ! ?i) = [RefItem (self_ref (texts doc' ! ?k))]"
    using pc cb fin(2) tb(2) by simp
  moreover have "self_ref (texts doc' ! ?k) = ''#/texts/'' @ str_nat ?k"
    using fin(2) tb(2) by simp
  moreover have "label (texts doc' ! ?k) = CAPTION" using fin(3) tb(3) by simp
  moreover have "prefix (strip description_prefix @ ?d) (item_text (texts doc' ! ?k))"
    using fin(4) tb(4) by simp
  ultimately show ?thesis using fin(1) by blast
qed

lemma old_caption_splice_descriptions:
  assumes run: "splice_descriptions h prov doc ps = Returned doc'"
    and n: "n < length ps" and dist: "distinct (map fst ps)"
    and i: "fst (ps ! n) < length (pictures doc)"
    and acc: "accepted (snd (ps ! n))"
    and cap: "captions (pictures doc ! fst (ps ! n)) = c # cs"
    and ref: "ref_attr h c = Inr r"
    and found: "next_where (\<lambda>t. self_ref t = r) (texts doc) = Some k"
  shows "\<exists>before after. item_text (texts doc' ! k) = before @ description_prefix @ snd (ps ! n) @ after \<and>
           prefix (item_text (texts doc ! k)) before"
proof -
  let ?i = "fst (ps ! n)" and ?d = "snd (ps ! n)"
  from splice_descriptions_split [OF run n] obtain a b where
    a: "splice_descriptions h prov doc (take n ps) = Returned a" and
    b: "splice_description h prov a ?i ?d = Returned b" and
    c: "splice_descriptions h prov b (drop (Suc n) ps) = Returned doc'"
    by blast
  have pa: "pictures a ! ?i = pictures doc ! ?i"
    using picture_kept_splice_descriptions [of ?i "take n ps" h prov doc]
      distinct_fst_nth(1) [OF dist n] a by simp
  have la: "length (pictures a) = length (pictures doc)"
    using length_pictures_splice_descriptions [of h prov doc "take n ps"] a by simp
  have ta: "texts_extend (texts doc) (texts a)"
    using texts_extend_splice_descriptions [of doc h prov "take n ps"] a by simp
  have ia: "?i < length (pictures a)" using i la by simp
  have ca: "captions (pictures a ! ?i) = c # cs" using cap pa by simp
  have fa: "next_where (\<lambda>t. self_ref t = r) (texts a) = Some k"
    by (rule next_where_texts_extend [OF found ta])
  have k: "k < length (texts doc)" using next_where_Some [OF found] by simp
  have ka: "k < length (texts a)" using next_where_Some [OF fa] by simp
  from splice_description_old_caption [OF acc ia ca ref fa, of prov] b
  have tb: "item_text (texts b ! k) = item_text (texts a ! k) @ description_prefix @ ?d"
    by simp
  have tab: "texts_extend (texts a) (texts b)"
    using texts_extend_splice_description [of a h prov ?i ?d] b by simp
  then have kb: "k < length (texts b)" using ka by (simp add: texts_extend_def)
  have tc: "texts_extend (texts b) (texts doc')"
    using texts_extend_splice_descriptions [of b h prov "drop (Suc n) ps"] c by simp
  with kb have "prefix (item_text (texts b ! k)) (item_text (texts doc' ! k))"
    by (simp add: texts_extend_def)
  then obtain after where after: "item_text (texts doc' ! k) = item_text (texts b ! k) @ after"
    by (auto simp: prefix_def)
  have "prefix (item_text (texts doc ! k)) (item_text (texts a ! k))"
    using ta k by (simp add: texts_extend_def)
  moreover have "item_text (texts doc' ! k) = item_text (texts a ! k) @ description_prefix @ ?d @ after"
    using after tb by simp
  ultimately show ?thesis by blast
qed

lemma splice_descriptions_returns:
  assumes "\<And>c. \<exists>r. ref_attr h c = Inr r"
  shows "has_returned (splice_descriptions h prov doc ps)"
proof (induction ps arbitrary: doc)
  case Nil
  show ?case by simp
next
  case (Cons p ps)
  obtain i d where p: "p = (i, d)" by (cases p)
  have "has_returned (splice_description h prov doc i d)"
  proof (cases "captions (pictures (update_picture i
      (\<lambda>p. p\<lparr>annotations := annotations p @ [PictureDescriptionData d prov]\<rparr>) doc) ! i)")
    case Nil
    then show ?thesis
      by (simp add: splice_description_def Let_def case_prod_beta)
  next
    case (Cons c cs)
    from assms [of c] obtain r where "ref_attr h c = Inr r" by blast
    with Cons show ?thesis
      by (simp add: splice_description_def Let_def split: option.splits)
  qed
  then obtain s where "splice_description h prov doc i d = Returned s"
    by (cases "splice_description h prov doc i d") simp_all
  with Cons.IH [of s] show ?case
    unfolding p by simp
qed

section \<open>The claims\<close>

text \<open>
  C8. \<^verbatim>\<open>add_bedrock_picture_descriptions\<close> returns with the document as it was
  whenever one of its early exits is taken: remote services are disabled, the
  construction of the model raises, no picture yields an image (each
  \<^verbatim>\<open>get_image\<close> raises or gives nothing), or the batch annotation raises.
\<close>

theorem early_exit_keeps_document:
  "(\<not> enable_remote_services \<longrightarrow>
      add_bedrock_picture_descriptions h doc opts enable_remote_services = Returned doc) \<and>
   (\<forall>e. model_init h enable_remote_services opts = Inl e \<longrightarrow>
      add_bedrock_picture_descriptions h doc opts enable_remote_services = Returned doc) \<and>
   ((\<forall>picture \<in> set (pictures doc). \<not> has_image h doc picture) \<longrightarrow>
      add_bedrock_picture_descriptions h doc opts enable_remote_services = Returned doc) \<and>
   (\<forall>model e. model_init h enable_remote_services opts = Inr model \<and>
        annotate_images model (images_to_process h doc) = Inl e \<longrightarrow>
      add_bedrock_picture_descriptions h doc opts enable_remote_services = Returned doc)"
proof (intro conjI allI impI)
  assume "\<not> enable_remote_services"
  then show "add_bedrock_picture_descriptions h doc opts enable_remote_services = Returned doc"
    by (simp add: add_bedrock_picture_descriptions_def)
next
  fix e assume "model_init h enable_remote_services opts = Inl e"
  then show "add_bedrock_picture_descriptions h doc opts enable_remote_services = Returned doc"
    by (cases enable_remote_services) (simp_all add: add_bedrock_picture_descriptions_def)
next
  assume "\<forall>picture \<in> set (pictures doc). \<not> has_image h doc picture"
  then have "images_to_process h doc = []"
    by (intro images_to_process_empty) simp
  then show "add_bedrock_picture_descriptions h doc opts enable_remote_services = Returned doc"
    by (simp add: add_bedrock_picture_descriptions_def split: sum.splits)
next
  fix model e
  assume "model_init h enable_remote_services opts = Inr model \<and>
    annotate_images model (images_to_process h doc) = Inl e"
  then show "add_bedrock_picture_descriptions h doc opts enable_remote_services = Returned doc"
    by (cases enable_remote_services) (simp_all add: add_bedrock_picture_descriptions_def)
qed

theorem early_exit_keeps_document_witness:
  "add_bedrock_picture_descriptions (example_host [(''#/pictures/0'', ''A cat'')])
      example_doc (default_options ()) False = Returned example_doc \<and>
   add_bedrock_picture_descriptions
      ((example_host [(''#/pictures/0'', ''A cat'')])
         \<lparr> model_init := (\<lambda>ers options. Inl (Exception ''no credentials'')) \<rparr>)
      example_doc (default_options ()) True = Returned example_doc \<and>
   add_bedrock_picture_descriptions
      ((example_host [(''#/pictures/0'', ''A cat'')])
         \<lparr> get_image := (\<lambda>d picture. if self_ref picture = ''#/pictures/0'' then Inr None
                                        else Inl (Exception ''no image'')) \<rparr>)
      example_doc (default_options ()) True = Returned example_doc \<and>
   add_bedrock_picture_descriptions
      ((example_host [])
         \<lparr> model_init := (\<lambda>ers options. Inr ((example_model [])
              \<lparr> annotate_images := (\<lambda>imgs. Inl (Exception ''throttled'')) \<rparr>)) \<rparr>)
      example_doc (default_options ()) True = Returned example_doc"
proof -
  let ?h = "example_host [(''#/pictures/0'', ''A cat'')]"
  let ?h2 = "?h\<lparr> model_init := (\<lambda>ers options. Inl (Exception ''no credentials'')) \<rparr>"
  let ?h3 = "?h\<lparr> get_image := (\<lambda>d picture. if self_ref picture = ''#/pictures/0'' then Inr None
                                        else Inl (Exception ''no image'')) \<rparr>"
  let ?m4 = "(example_model [])\<lparr> annotate_images := (\<lambda>imgs. Inl (Exception ''throttled'')) \<rparr>"
  let ?h4 = "(example_host [])\<lparr> model_init := (\<lambda>ers options. Inr ?m4) \<rparr>"
  have 1: "\<not> False" by simp
  have 2: "model_init ?h2 True (default_options ()) = Inl (Exception ''no credentials'')"
    by simp
  have 3: "\<forall>picture \<in> set (pictures example_doc). \<not> has_image ?h3 example_doc picture"
    by (simp add: example_doc_def example_picture_def has_image_def)
  have 4: "model_init ?h4 True (default_options ()) = Inr ?m4 \<and>
      annotate_images ?m4 (images_to_process ?h4 example_doc) = Inl (Exception ''throttled'')"
    by simp
  from early_exit_keeps_document [of False ?h example_doc "default_options ()"]
       early_exit_keeps_document [of True ?h2 example_doc "default_options ()"]
       early_exit_keeps_document [of True ?h3 example_doc "default_options ()"]
       early_exit_keeps_document [of True ?h4 example_doc "default_options ()"]
       1 2 3 4
  show ?thesis by blast
qed

text \<open>
  C9. A description that starts with \<^verbatim>\<open>Error\<close> or with \<^verbatim>\<open>Unsupported\<close> attaches
  nothing: the body of the loop leaves the whole document as it is (no annotation, no
  new caption, no change of a caption text, no caption reference), and at the end of
  the call, also one that an exception cut short, the picture this description was
  paired with is what it was before.
\<close>

theorem rejected_description_attaches_nothing:
  "((startswith d ''Error'' \<or> startswith d ''Unsupported'') \<longrightarrow>
      splice_description h prov doc i d = Returned doc) \<and>
   (model_init h True opts = Inr model \<and>
    annotate_images model (images_to_process h doc) = Inr descriptions \<and>
    n < length (pictures_to_process h doc) \<and> n < length descriptions \<and>
    (startswith (descriptions ! n) ''Error'' \<or> startswith (descriptions ! n) ''Unsupported'') \<longrightarrow>
      pictures (state_of (add_bedrock_picture_descriptions h doc opts True)) !
          (pictures_to_process h doc ! n) =
        pictures doc ! (pictures_to_process h doc ! n))"
proof (intro conjI impI)
  assume "startswith d ''Error'' \<or> startswith d ''Unsupported''"
  then have "\<not> accepted d" by (auto simp: accepted_def)
  then show "splice_description h prov doc i d = Returned doc"
    by (rule splice_description_rejected)
next
  let ?pics = "pictures_to_process h doc"
  assume a: "model_init h True opts = Inr model \<and>
    annotate_images model (images_to_process h doc) = Inr descriptions \<and>
    n < length ?pics \<and> n < length descriptions \<and>
    (startswith (descriptions ! n) ''Error'' \<or> startswith (descriptions ! n) ''Unsupported'')"
  then have rej: "\<not> accepted (descriptions ! n)" by (auto simp: accepted_def)
  have run: "add_bedrock_picture_descriptions h doc opts True =
      splice_descriptions h (model_provenance model) doc (zip ?pics descriptions)"
    using a by (intro add_bedrock_picture_descriptions_loop) simp_all
  have "\<not> accepted d" if "(?pics ! n, d) \<in> set (zip ?pics descriptions)" for d
    using zip_member_nth [OF distinct_pictures_to_process _ _ that] a rej by simp
  then show "pictures (state_of (add_bedrock_picture_descriptions h doc opts True)) ! (?pics ! n) =
      pictures doc ! (?pics ! n)"
    unfolding run by (rule picture_kept_splice_descriptions)
qed

theorem rejected_description_attaches_nothing_witness:
  "startswith ''Unsupported image format'' ''Unsupported'' \<and>
   splice_description (example_host [(''#/pictures/0'', ''A cat'')]) ''amazon-bedrock'' example_doc 0
       ''Unsupported image format''
     = Returned example_doc \<and>
   pictures_to_process (example_host [(''#/pictures/0'', ''A cat'')]) example_doc = [0, 1] \<and>
   annotate_images (example_model [(''#/pictures/0'', ''A cat'')])
       (images_to_process (example_host [(''#/pictures/0'', ''A cat'')]) example_doc)
     = Inr [''A cat'', ''Error: no response''] \<and>
   pictures (state_of (add_bedrock_picture_descriptions
       (example_host [(''#/pictures/0'', ''A cat'')]) example_doc (default_options ()) True)) ! 1 =
     example_picture ''#/pictures/1'' [RefItem ''#/texts/0''] []"
proof -
  let ?t = "[(''#/pictures/0'', ''A cat'')]"
  let ?h = "example_host ?t"
  have s: "startswith ''Unsupported image format'' ''Unsupported''"
    by (simp add: startswith_def)
  have e: "startswith ''Error: no response'' ''Error''"
    by (simp add: startswith_def)
  have pics: "pictures_to_process ?h example_doc = [0, 1]"
    by (simp add: pictures_to_process_def example_host_def example_doc_def enumerate_eq_zip upt_rec)
  have imgs: "images_to_process ?h example_doc = [PILImage ''#/pictures/0'', PILImage ''#/pictures/1'']"
    by (simp add: images_to_process_def example_host_def example_doc_def example_picture_def
          enumerate_eq_zip upt_rec)
  have ann: "annotate_images (example_model ?t) (images_to_process ?h example_doc)
      = Inr [''A cat'', ''Error: no response'']"
    by (simp add: imgs example_model_def answer_def)
  have init: "model_init ?h True (default_options ()) = Inr (example_model ?t)"
    by (simp add: example_host_def)
  have old: "pictures example_doc ! 1 = example_picture ''#/pictures/1'' [RefItem ''#/texts/0''] []"
    by (simp add: example_doc_def)
  from rejected_description_attaches_nothing
    [of "''Unsupported image format''" ?h "''amazon-bedrock''" example_doc 0
        "default_options ()" "example_model ?t" "[''A cat'', ''Error: no response'']" 1]
    s e pics ann init old
  show ?thesis by simp
qed

text \<open>
  C10. \<^verbatim>\<open>describe_image\<close> always returns a string and never raises: the first
  description when the adapter gives a non-empty list, \<^verbatim>\<open>No description was generated\<close>
  when the list is empty, and \<^verbatim>\<open>Error: \<close> followed by the text of the exception
  when the construction of the model, the loading of the image or the annotation raises.
\<close>

theorem describe_image_never_raises:
  "(\<exists>s. describe_image h b image_path = Inr s) \<and>
   (\<forall>model img description rest.
      model_init h True (describe_options b) = Inr model \<and> image_open h image_path = Inr img \<and>
      annotate_images model [img] = Inr (description # rest) \<longrightarrow>
        describe_image h b image_path = Inr description) \<and>
   (\<forall>model img.
      model_init h True (describe_options b) = Inr model \<and> image_open h image_path = Inr img \<and>
      annotate_images model [img] = Inr [] \<longrightarrow>
        describe_image h b image_path = Inr ''No description was generated'') \<and>
   (\<forall>e. model_init h True (describe_options b) = Inl e \<or>
        (\<exists>model. model_init h True (describe_options b) = Inr model \<and>
           (image_open h image_path = Inl e \<or>
            (\<exists>img. image_open h image_path = Inr img \<and> annotate_images model [img] = Inl e))) \<longrightarrow>
        describe_image h b image_path = Inr (''Error: '' @ message e) \<and>
        startswith (''Error: '' @ message e) ''Error: '')"
proof (intro conjI allI impI)
  show "\<exists>s. describe_image h b image_path = Inr s"
    by (cases "describe_image_body h b image_path") (simp_all add: describe_image_def)
next
  fix model img description rest
  assume "model_init h True (describe_options b) = Inr model \<and> image_open h image_path = Inr img \<and>
      annotate_images model [img] = Inr (description # rest)"
  then show "describe_image h b image_path = Inr description"
    by (simp add: describe_image_def describe_image_body_def)
next
  fix model img
  assume "model_init h True (describe_options b) = Inr model \<and> image_open h image_path = Inr img \<and>
      annotate_images model [img] = Inr []"
  then show "describe_image h b image_path = Inr ''No description was generated''"
    by (simp add: describe_image_def describe_image_body_def)
next
  fix e
  assume "model_init h True (describe_options b) = Inl e \<or>
        (\<exists>model. model_init h True (describe_options b) = Inr model \<and>
           (image_open h image_path = Inl e \<or>
            (\<exists>img. image_open h image_path = Inr img \<and> annotate_images model [img] = Inl e)))"
  then show "describe_image h b image_path = Inr (''Error: '' @ message e)"
    by (auto simp: describe_image_def describe_image_body_def)
next
  fix e
  show "startswith (''Error: '' @ message e) ''Error: ''"
    by (simp add: startswith_def)
qed

theorem describe_image_never_raises_witness:
  "describe_image (example_host [(''cat.png'', ''A cat'')]) () ''cat.png'' = Inr ''A cat'' \<and>
   describe_image
     ((example_host []) \<lparr> model_init := (\<lambda>ers options. Inr ((example_model [])
          \<lparr> annotate_images := (\<lambda>imgs. Inr []) \<rparr>)) \<rparr>) () ''cat.png''
     = Inr ''No description was generated'' \<and>
   describe_image
     ((example_host []) \<lparr> image_open := (\<lambda>path. Inl (Exception ''cannot identify image file'')) \<rparr>)
     () ''cat.txt'' = Inr ''Error: cannot identify image file''"
proof -
  let ?h1 = "example_host [(''cat.png'', ''A cat'')]"
  let ?m2 = "(example_model []) \<lparr> annotate_images := (\<lambda>imgs. Inr []) \<rparr>"
  let ?h2 = "(example_host []) \<lparr> model_init := (\<lambda>ers options. Inr ?m2) \<rparr>"
  let ?h3 = "(example_host []) \<lparr> image_open := (\<lambda>path. Inl (Exception ''cannot identify image file'')) \<rparr>"
  have 1: "model_init ?h1 True (describe_options ()) = Inr (example_model [(''cat.png'', ''A cat'')]) \<and>
      image_open ?h1 ''cat.png'' = Inr (PILImage ''cat.png'') \<and>
      annotate_images (example_model [(''cat.png'', ''A cat'')]) [PILImage ''cat.png''] = Inr (''A cat'' # [])"
    by (simp add: example_host_def example_model_def answer_def)
  have 2: "model_init ?h2 True (describe_options ()) = Inr ?m2 \<and>
      image_open ?h2 ''cat.png'' = Inr (PILImage ''cat.png'') \<and>
      annotate_images ?m2 [PILImage ''cat.png''] = Inr []"
    by (simp add: example_host_def)
  have 3: "\<exists>model. model_init ?h3 True (describe_options ()) = Inr model \<and>
      (image_open ?h3 ''cat.txt'' = Inl (Exception ''cannot identify image file'') \<or>
       (\<exists>img. image_open ?h3 ''cat.txt'' = Inr img \<and>
          annotate_images model [img] = Inl (Exception ''cannot identify image file'')))"
    by (simp add: example_host_def)
  from describe_image_never_raises [of ?h1 "()" "''cat.png''"] 1
  have a: "describe_image ?h1 () ''cat.png'' = Inr ''A cat''" by blast
  from describe_image_never_raises [of ?h2 "()" "''cat.png''"] 2
  have b: "describe_image ?h2 () ''cat.png'' = Inr ''No description was generated''" by blast
  from describe_image_never_raises [of ?h3 "()" "''cat.txt''"] 3
  have c: "describe_image ?h3 () ''cat.txt'' = Inr (''Error: '' @ message (Exception ''cannot identify image file''))"
    by blast
  from a b c show ?thesis by simp
qed

text \<open>
  C2. The configuration record is made of the ten fields the spec lists (model
  identifier, region, credentials profile, timeout, worker count, temperature, max
  tokens, top-k, prompt template, provenance tag) and of the inherited base options, and
  of nothing else: two records are the same exactly when they agree on these. Each field
  has the default the class declares.
\<close>

theorem configuration_record_fields:
  "((a :: 'b PictureDescriptionBedrockApiOptions) = c \<longleftrightarrow>
      base_options a = base_options c \<and> model_id a = model_id c \<and>
      region_name a = region_name c \<and> profile_name a = profile_name c \<and>
      timeout a = timeout c \<and> max_workers a = max_workers c \<and>
      temperature a = temperature c \<and> max_tokens a = max_tokens c \<and>
      top_k a = top_k c \<and> prompt a = prompt c \<and> provenance a = provenance c) \<and>
   base_options (default_options b) = b \<and>
   model_id (default_options b) = ''anthropic.claude-3-sonnet-20240229-v1:0'' \<and>
   region_name (default_options b) = None \<and>
   profile_name (default_options b) = None \<and>
   timeout (default_options b) = 30 \<and>
   max_workers (default_options b) = 3 \<and>
   temperature (default_options b) = 1 / 2 \<and>
   max_tokens (default_options b) = 200 \<and>
   top_k (default_options b) = 250 \<and>
   prompt (default_options b) = ''Describe this image in a few sentences.'' \<and>
   provenance (default_options b) = ''amazon-bedrock''"
proof -
  have "(a = c) = (base_options a = base_options c \<and> model_id a = model_id c \<and>
      region_name a = region_name c \<and> profile_name a = profile_name c \<and>
      timeout a = timeout c \<and> max_workers a = max_workers c \<and>
      temperature a = temperature c \<and> max_tokens a = max_tokens c \<and>
      top_k a = top_k c \<and> prompt a = prompt c \<and> provenance a = provenance c)"
    by (cases a, cases c) auto
  then show ?thesis by (simp add: default_options_def)
qed

lemma filter_fst_nth:
  assumes "distinct (map fst ps)" and "n < length ps"
  shows "filter (\<lambda>p. fst p = fst (ps ! n) \<and> Q (snd p)) ps = (if Q (snd (ps ! n)) then [ps ! n] else [])"
proof -
  have split: "ps = take n ps @ ps ! n # drop (Suc n) ps"
    using id_take_nth_drop [OF assms(2)] .
  have "filter (\<lambda>p. fst p = fst (ps ! n) \<and> Q (snd p)) (take n ps) = []"
    using distinct_fst_nth(1) [OF assms] by (auto simp: filter_empty_conv)
  moreover have "filter (\<lambda>p. fst p = fst (ps ! n) \<and> Q (snd p)) (drop (Suc n) ps) = []"
    using distinct_fst_nth(2) [OF assms] by (auto simp: filter_empty_conv)
  ultimately have "filter (\<lambda>p. fst p = fst (ps ! n) \<and> Q (snd p))
      (take n ps @ ps ! n # drop (Suc n) ps) = (if Q (snd (ps ! n)) then [ps ! n] else [])"
    by simp
  with split show ?thesis by simp
qed

lemma annotations_nth_splice_descriptions:
  assumes "splice_descriptions h prov doc (zip pics descs) = Returned doc'"
    and "distinct pics" and "n < length pics" and "n < length descs"
    and "pics ! n < length (pictures doc)"
  shows "annotations (pictures doc' ! (pics ! n)) =
           annotations (pictures doc ! (pics ! n)) @
             (if accepted (descs ! n) then [PictureDescriptionData (descs ! n) prov] else [])"
proof -
  let ?ps = "zip pics descs"
  have n: "n < length ?ps" using assms(3,4) by simp
  have p: "?ps ! n = (pics ! n, descs ! n)" using assms(3,4) by simp
  have "filter (\<lambda>p. fst p = pics ! n \<and> accepted (snd p)) ?ps =
      (if accepted (descs ! n) then [(pics ! n, descs ! n)] else [])"
    using filter_fst_nth [OF distinct_fst_zip [OF assms(2)] n, of accepted] p by simp
  with annotations_splice_descriptions [OF assms(1,5)] show ?thesis by simp
qed

lemma annotations_grow_add:
  assumes "j < length (pictures doc)"
    and "\<And>m. model_init h True opts = Inr m \<Longrightarrow> model_provenance m = prov"
  shows "\<exists>ds. annotations (pictures (state_of (add_bedrock_picture_descriptions h doc opts ers)) ! j) =
           annotations (pictures doc ! j) @ map (\<lambda>d. PictureDescriptionData d prov) ds"
  using add_bedrock_picture_descriptions_cases [of h doc opts ers]
proof (elim disjE exE conjE)
  assume "add_bedrock_picture_descriptions h doc opts ers = Returned doc"
  then show ?thesis by (intro exI [of _ "[]"]) simp
next
  fix m descs
  assume m: "model_init h True opts = Inr m"
    and run: "add_bedrock_picture_descriptions h doc opts ers =
      splice_descriptions h (model_provenance m) doc (zip (pictures_to_process h doc) descs)"
  from annotations_grow_splice_descriptions [OF assms(1), of "zip (pictures_to_process h doc) descs" h "model_provenance m"]
  show ?thesis unfolding run assms(2) [OF m] by blast
qed

lemma length_pictures_add:
  "length (pictures (state_of (add_bedrock_picture_descriptions h doc opts ers))) = length (pictures doc)"
  using add_bedrock_picture_descriptions_cases [of h doc opts ers]
  by (auto simp: length_pictures_splice_descriptions)

lemma add_bedrock_picture_descriptions_returns:
  assumes "\<And>c. \<exists>r. ref_attr h c = Inr r"
  shows "has_returned (add_bedrock_picture_descriptions h doc opts ers)"
  using add_bedrock_picture_descriptions_cases [of h doc opts ers]
    splice_descriptions_returns [of h, OF assms]
  by auto

lemma Returned_state_of: "has_returned out \<Longrightarrow> out = Returned (state_of out)"
  by (cases out) simp_all

subsection \<open>The examples, evaluated\<close>

lemma example_host_returns:
  "has_returned (add_bedrock_picture_descriptions (example_host table) doc opts ers)"
  by (rule add_bedrock_picture_descriptions_returns) (simp add: example_host_def)

lemma example_model_init:
  "model_init (example_host table) ers opts = Inr (example_model table)"
  "model_init (strict_host table) ers opts = Inr (example_model table)"
  by (simp_all add: example_host_def strict_host_def)

lemma example_batch:
  "pictures_to_process (example_host table) example_doc = [0, 1]"
  "images_to_process (example_host table) example_doc =
     [PILImage ''#/pictures/0'', PILImage ''#/pictures/1'']"
  by (simp_all add: pictures_to_process_def images_to_process_def example_host_def
        example_doc_def example_picture_def enumerate_eq_zip upt_rec)

lemma single_batch:
  "pictures_to_process (example_host table) plain_doc = [0]"
  "images_to_process (example_host table) plain_doc = [PILImage ''#/pictures/0'']"
  "pictures_to_process (example_host table) captioned_doc = [0]"
  "images_to_process (example_host table) captioned_doc = [PILImage ''#/pictures/0'']"
  "pictures_to_process (strict_host table) captioned_doc = [0]"
  "images_to_process (strict_host table) captioned_doc = [PILImage ''#/pictures/0'']"
  by (simp_all add: pictures_to_process_def images_to_process_def example_host_def strict_host_def
        plain_doc_def captioned_doc_def example_doc_def example_picture_def enumerate_eq_zip upt_rec)

lemma example_answers:
  "annotate_images (example_model table) imgs = Inr (map (answer table) imgs)"
  by (simp add: example_model_def)

text \<open>
  C4. The annotations of a picture are only ever appended to: whatever way the call
  ends, every picture keeps its earlier annotations, in order, at the front of its list.
  When the call returns, the picture that was paired with a description that passed
  the guard of line 119 has exactly one more annotation, a
  \<^verbatim>\<open>PictureDescriptionData\<close> with the generated text, at the end of the list.
\<close>

theorem description_payload_appended:
  "(\<forall>j<length (pictures doc).
      prefix (annotations (pictures doc ! j))
        (annotations (pictures (state_of (add_bedrock_picture_descriptions h doc opts ers)) ! j))) \<and>
   length (pictures (state_of (add_bedrock_picture_descriptions h doc opts ers))) = length (pictures doc) \<and>
   (model_init h True opts = Inr model \<and>
    annotate_images model (images_to_process h doc) = Inr descriptions \<and>
    add_bedrock_picture_descriptions h doc opts True = Returned doc' \<and>
    n < length (pictures_to_process h doc) \<and> n < length descriptions \<and>
    accepted (descriptions ! n) \<longrightarrow>
      annotations (pictures doc' ! (pictures_to_process h doc ! n)) =
        annotations (pictures doc ! (pictures_to_process h doc ! n)) @
          [PictureDescriptionData (descriptions ! n) (model_provenance model)])"
proof (intro conjI allI impI)
  fix j assume j: "j < length (pictures doc)"
  define prov where "prov = (case model_init h True opts of Inr m \<Rightarrow> model_provenance m | Inl e \<Rightarrow> [])"
  have "\<And>m. model_init h True opts = Inr m \<Longrightarrow> model_provenance m = prov"
    by (simp add: prov_def)
  from annotations_grow_add [OF j this, where ers = ers]
  show "prefix (annotations (pictures doc ! j))
      (annotations (pictures (state_of (add_bedrock_picture_descriptions h doc opts ers)) ! j))"
    by (auto simp: prefix_def)
next
  show "length (pictures (state_of (add_bedrock_picture_descriptions h doc opts ers))) = length (pictures doc)"
    by (rule length_pictures_add)
next
  let ?pics = "pictures_to_process h doc"
  assume a: "model_init h True opts = Inr model \<and>
    annotate_images model (images_to_process h doc) = Inr descriptions \<and>
    add_bedrock_picture_descriptions h doc opts True = Returned doc' \<and>
    n < length ?pics \<and> n < length descriptions \<and> accepted (descriptions ! n)"
  have run: "splice_descriptions h (model_provenance model) doc (zip ?pics descriptions) = Returned doc'"
    using add_bedrock_picture_descriptions_loop [of h opts model doc descriptions] a by simp
  from annotations_nth_splice_descriptions [OF run distinct_pictures_to_process] a pictures_to_process_less [of n h doc]
  show "annotations (pictures doc' ! (?pics ! n)) =
      annotations (pictures doc ! (?pics ! n)) @
        [PictureDescriptionData (descriptions ! n) (model_provenance model)]"
    by simp
qed


theorem description_payload_appended_witness:
  "accepted ''A cat'' \<and>
   has_returned (add_bedrock_picture_descriptions
      (example_host [(''#/pictures/0'', ''A cat''), (''#/pictures/1'', ''A dog'')])
      example_doc (default_options ()) True) \<and>
   annotations (pictures example_doc ! 0) = [OtherAnnotation ''classification''] \<and>
   annotations (pictures (state_of (add_bedrock_picture_descriptions
      (example_host [(''#/pictures/0'', ''A cat''), (''#/pictures/1'', ''A dog'')])
      example_doc (default_options ()) True)) ! 0) =
     [OtherAnnotation ''classification'', PictureDescriptionData ''A cat'' ''amazon-bedrock'']"
proof -
  let ?t = "[(''#/pictures/0'', ''A cat''), (''#/pictures/1'', ''A dog'')]"
  let ?out = "add_bedrock_picture_descriptions (example_host ?t) example_doc (default_options ()) True"
  have acc: "accepted ''A cat''"
    by (simp add: accepted_def startswith_def)
  have ret: "has_returned ?out" by (rule example_host_returns)
  have run: "?out = Returned (state_of ?out)"
    using ret by (rule Returned_state_of)
  have ann: "annotate_images (example_model ?t) (images_to_process (example_host ?t) example_doc)
      = Inr [''A cat'', ''A dog'']"
    by (simp add: example_batch example_answers answer_def)
  have old: "annotations (pictures example_doc ! 0) = [OtherAnnotation ''classification'']"
    by (simp add: example_doc_def example_picture_def)
  have prov: "model_provenance (example_model ?t) = ''amazon-bedrock''"
    by (simp add: example_model_def)
  from description_payload_appended
    [of example_doc "example_host ?t" "default_options ()" True "example_model ?t"
        "[''A cat'', ''A dog'']" "state_of ?out" 0]
    example_model_init(1) [of ?t True "default_options ()"] ann run acc old prov
  have "annotations (pictures (state_of ?out) ! 0) =
      [OtherAnnotation ''classification'', PictureDescriptionData ''A cat'' ''amazon-bedrock'']"
    by (simp add: example_batch)
  with acc ret old show ?thesis by simp
qed

text \<open>
  C3 as stated fails: with two pictures that both have an image, the second
  description, \<^verbatim>\<open>Unsupported image format\<close>, is not attached to the second picture,
  which ends without any annotation and with its caption text as it was.
\<close>

theorem second_description_not_attached:
  "pictures_to_process
     (example_host [(''#/pictures/0'', ''A cat''), (''#/pictures/1'', ''Unsupported image format'')])
     example_doc = [0, 1] \<and>
   annotate_images
     (example_model [(''#/pictures/0'', ''A cat''), (''#/pictures/1'', ''Unsupported image format'')])
     (images_to_process
        (example_host [(''#/pictures/0'', ''A cat''), (''#/pictures/1'', ''Unsupported image format'')])
        example_doc)
     = Inr [''A cat'', ''Unsupported image format''] \<and>
   has_returned (add_bedrock_picture_descriptions
     (example_host [(''#/pictures/0'', ''A cat''), (''#/pictures/1'', ''Unsupported image format'')])
     example_doc (default_options ()) True) \<and>
   annotations (pictures (state_of (add_bedrock_picture_descriptions
     (example_host [(''#/pictures/0'', ''A cat''), (''#/pictures/1'', ''Unsupported image format'')])
     example_doc (default_options ()) True)) ! 1) = [] \<and>
   item_text (texts (state_of (add_bedrock_picture_descriptions
     (example_host [(''#/pictures/0'', ''A cat''), (''#/pictures/1'', ''Unsupported image format'')])
     example_doc (default_options ()) True)) ! 0) = ''Figure 1''"
  by code_simp


text \<open>
  C3, amended. When the call returns, the batch is the pictures that have an image, in
  the order of the document, and the description at position \<open>n\<close> of the adapter's
  answer goes to the picture at position \<open>n\<close> of the batch and to no other: that
  picture's annotations grow by this description if it starts with neither
  \<^verbatim>\<open>Error\<close> nor \<^verbatim>\<open>Unsupported\<close> and by nothing otherwise, and a picture that has
  no position paired with a description is left as it was.
\<close>

theorem descriptions_attached_by_position:
  "model_init h True opts = Inr model \<and>
   annotate_images model (images_to_process h doc) = Inr descriptions \<and>
   add_bedrock_picture_descriptions h doc opts True = Returned doc' \<longrightarrow>
     pictures_to_process h doc =
       filter (\<lambda>i. has_image h doc (pictures doc ! i)) [0..<length (pictures doc)] \<and>
     (\<forall>n. n < length (pictures_to_process h doc) \<and> n < length descriptions \<longrightarrow>
        annotations (pictures doc' ! (pictures_to_process h doc ! n)) =
          annotations (pictures doc ! (pictures_to_process h doc ! n)) @
            (if accepted (descriptions ! n)
             then [PictureDescriptionData (descriptions ! n) (model_provenance model)] else [])) \<and>
     (\<forall>j. j \<notin> set (take (length descriptions) (pictures_to_process h doc)) \<longrightarrow>
        pictures doc' ! j = pictures doc ! j)"
proof (intro impI conjI allI)
  let ?pics = "pictures_to_process h doc"
  assume a: "model_init h True opts = Inr model \<and>
    annotate_images model (images_to_process h doc) = Inr descriptions \<and>
    add_bedrock_picture_descriptions h doc opts True = Returned doc'"
  have run: "splice_descriptions h (model_provenance model) doc (zip ?pics descriptions) = Returned doc'"
    using add_bedrock_picture_descriptions_loop [of h opts model doc descriptions] a by simp
  show "?pics = filter (\<lambda>i. has_image h doc (pictures doc ! i)) [0..<length (pictures doc)]"
    by (rule pictures_to_process_eq)
  {
    fix n assume n: "n < length ?pics \<and> n < length descriptions"
    from annotations_nth_splice_descriptions [OF run distinct_pictures_to_process] n
      pictures_to_process_less [of n h doc]
    show "annotations (pictures doc' ! (?pics ! n)) =
        annotations (pictures doc ! (?pics ! n)) @
          (if accepted (descriptions ! n)
           then [PictureDescriptionData (descriptions ! n) (model_provenance model)] else [])"
      by simp
  }
  {
    fix j assume j: "j \<notin> set (take (length descriptions) ?pics)"
    have "\<not> accepted d" if "(j, d) \<in> set (zip ?pics descriptions)" for d
    proof -
      from that obtain m where m: "m < length ?pics" "m < length descriptions" "?pics ! m = j"
        by (auto simp: set_zip)
      then have "m < length (take (length descriptions) ?pics)"
        and "take (length descriptions) ?pics ! m = j"
        by simp_all
      then have "j \<in> set (take (length descriptions) ?pics)"
        by (metis nth_mem)
      with j show ?thesis by simp
    qed
    from picture_kept_splice_descriptions [of j "zip ?pics descriptions" h "model_provenance model" doc, OF this]
    show "pictures doc' ! j = pictures doc ! j"
      using run by simp
  }
qed

theorem descriptions_attached_by_position_witness:
  "pictures_to_process
     ((example_host [(''#/pictures/0'', ''A cat''), (''#/pictures/2'', ''A bird'')])
        \<lparr> get_image := (\<lambda>d picture. if self_ref picture = ''#/pictures/1'' then Inr None
                                       else Inr (Some (PILImage (self_ref picture)))) \<rparr>)
     (example_doc \<lparr> pictures := pictures example_doc @ [example_picture ''#/pictures/2'' [] []] \<rparr>)
     = [0, 2] \<and>
   annotations (pictures (state_of (add_bedrock_picture_descriptions
     ((example_host [(''#/pictures/0'', ''A cat''), (''#/pictures/2'', ''A bird'')])
        \<lparr> get_image := (\<lambda>d picture. if self_ref picture = ''#/pictures/1'' then Inr None
                                       else Inr (Some (PILImage (self_ref picture)))) \<rparr>)
     (example_doc \<lparr> pictures := pictures example_doc @ [example_picture ''#/pictures/2'' [] []] \<rparr>)
     (default_options ()) True)) ! 2) = [PictureDescriptionData ''A bird'' ''amazon-bedrock''] \<and>
   pictures (state_of (add_bedrock_picture_descriptions
     ((example_host [(''#/pictures/0'', ''A cat''), (''#/pictures/2'', ''A bird'')])
        \<lparr> get_image := (\<lambda>d picture. if self_ref picture = ''#/pictures/1'' then Inr None
                                       else Inr (Some (PILImage (self_ref picture)))) \<rparr>)
     (example_doc \<lparr> pictures := pictures example_doc @ [example_picture ''#/pictures/2'' [] []] \<rparr>)
     (default_options ()) True)) ! 1 = example_picture ''#/pictures/1'' [RefItem ''#/texts/0''] []"
proof -
  let ?t = "[(''#/pictures/0'', ''A cat''), (''#/pictures/2'', ''A bird'')]"
  let ?h = "(example_host ?t)
        \<lparr> get_image := (\<lambda>d picture. if self_ref picture = ''#/pictures/1'' then Inr None
                                       else Inr (Some (PILImage (self_ref picture)))) \<rparr>"
  let ?doc = "example_doc \<lparr> pictures := pictures example_doc @ [example_picture ''#/pictures/2'' [] []] \<rparr>"
  let ?out = "add_bedrock_picture_descriptions ?h ?doc (default_options ()) True"
  have init: "model_init ?h True (default_options ()) = Inr (example_model ?t)"
    by (simp add: example_host_def)
  have pics: "pictures_to_process ?h ?doc = [0, 2]"
    by code_simp
  have ann: "annotate_images (example_model ?t) (images_to_process ?h ?doc) = Inr [''A cat'', ''A bird'']"
    by code_simp
  have "has_returned ?out"
    by (rule add_bedrock_picture_descriptions_returns) (simp add: example_host_def)
  then have run: "?out = Returned (state_of ?out)" by (rule Returned_state_of)
  have acc: "accepted ''A bird''" by (simp add: accepted_def startswith_def)
  have old: "annotations (pictures ?doc ! 2) = []" "pictures ?doc ! 1 = example_picture ''#/pictures/1'' [RefItem ''#/texts/0''] []"
    by (simp_all add: example_doc_def example_picture_def)
  have prov: "model_provenance (example_model ?t) = ''amazon-bedrock''"
    by (simp add: example_model_def)
  from descriptions_attached_by_position
    [of ?h "default_options ()" "example_model ?t" ?doc "[''A cat'', ''A bird'']" "state_of ?out"]
    init ann run
  have pos: "\<forall>n. n < length (pictures_to_process ?h ?doc) \<and> n < length [''A cat'', ''A bird''] \<longrightarrow>
        annotations (pictures (state_of ?out) ! (pictures_to_process ?h ?doc ! n)) =
          annotations (pictures ?doc ! (pictures_to_process ?h ?doc ! n)) @
            (if accepted ([''A cat'', ''A bird''] ! n)
             then [PictureDescriptionData ([''A cat'', ''A bird''] ! n) (model_provenance (example_model ?t))] else [])"
    and rest: "\<forall>j. j \<notin> set (take (length [''A cat'', ''A bird'']) (pictures_to_process ?h ?doc)) \<longrightarrow>
        pictures (state_of ?out) ! j = pictures ?doc ! j"
    by blast+
  from pos [rule_format, of 1] pics acc old(1) prov
  have a: "annotations (pictures (state_of ?out) ! 2) = [PictureDescriptionData ''A bird'' ''amazon-bedrock'']"
    by simp
  from rest [rule_format, of 1] pics old(2)
  have b: "pictures (state_of ?out) ! 1 = example_picture ''#/pictures/1'' [RefItem ''#/texts/0''] []"
    by simp
  from pics a b show ?thesis by simp
qed

lemma strip_description_prefix: "strip description_prefix = ''Image Description:''"
  by (simp add: strip_def description_prefix_def is_space_def)

text \<open>
  C1 as stated fails: the adapter's answer for the only picture of the document is the
  string \<^verbatim>\<open>Error: no response\<close>, and the call returns the document as it was, with
  the description in no annotation and in no caption.
\<close>

theorem error_description_not_spliced:
  "annotate_images (example_model [])
     (images_to_process (example_host []) plain_doc) = Inr [''Error: no response''] \<and>
   add_bedrock_picture_descriptions (example_host []) plain_doc (default_options ()) True
     = Returned plain_doc \<and>
   annotations (pictures plain_doc ! 0) = [] \<and> captions (pictures plain_doc ! 0) = [] \<and>
   texts plain_doc = []"
  by code_simp

text \<open>
  C1, amended. When the call returns, each description of the adapter's answer that is
  paired with a picture and starts with neither \<^verbatim>\<open>Error\<close> nor \<^verbatim>\<open>Unsupported\<close> is in
  the document: it is the text of the annotation appended to its picture; if the picture
  had no caption, the picture's only caption reference now names a new caption text that
  begins with \<^verbatim>\<open>Image Description:\<close> and the description; if the picture had a
  caption whose reference the host reads and one of the texts bears, that text now
  holds the description after two newlines and \<^verbatim>\<open>Image Description: \<close>. The call
  returns whenever the host's read of a caption reference does not raise.
\<close>

theorem descriptions_spliced_into_document:
  "((\<forall>c. \<exists>r. ref_attr h c = Inr r) \<longrightarrow>
      has_returned (add_bedrock_picture_descriptions h doc opts ers)) \<and>
   (model_init h True opts = Inr model \<and>
    annotate_images model (images_to_process h doc) = Inr descriptions \<and>
    add_bedrock_picture_descriptions h doc opts True = Returned doc' \<and>
    n < length (pictures_to_process h doc) \<and> n < length descriptions \<and>
    accepted (descriptions ! n) \<longrightarrow>
      last (annotations (pictures doc' ! (pictures_to_process h doc ! n))) =
        PictureDescriptionData (descriptions ! n) (model_provenance model) \<and>
      (captions (pictures doc ! (pictures_to_process h doc ! n)) = [] \<longrightarrow>
         (\<exists>k<length (texts doc').
            captions (pictures doc' ! (pictures_to_process h doc ! n)) =
              [RefItem (self_ref (texts doc' ! k))] \<and>
            label (texts doc' ! k) = CAPTION \<and>
            prefix (''Image Description:'' @ descriptions ! n) (item_text (texts doc' ! k)))) \<and>
      (\<forall>c cs r k.
         captions (pictures doc ! (pictures_to_process h doc ! n)) = c # cs \<and>
         ref_attr h c = Inr r \<and>
         next_where (\<lambda>t. self_ref t = r) (texts doc) = Some k \<longrightarrow>
           (\<exists>before after.
              item_text (texts doc' ! k) =
                before @ description_prefix @ descriptions ! n @ after \<and>
              prefix (item_text (texts doc ! k)) before)))"
proof (intro conjI impI allI)
  assume "\<forall>c. \<exists>r. ref_attr h c = Inr r"
  then show "has_returned (add_bedrock_picture_descriptions h doc opts ers)"
    by (intro add_bedrock_picture_descriptions_returns) simp
next
  let ?pics = "pictures_to_process h doc"
  let ?ps = "zip ?pics descriptions"
  assume a: "model_init h True opts = Inr model \<and>
    annotate_images model (images_to_process h doc) = Inr descriptions \<and>
    add_bedrock_picture_descriptions h doc opts True = Returned doc' \<and>
    n < length ?pics \<and> n < length descriptions \<and> accepted (descriptions ! n)"
  have run: "splice_descriptions h (model_provenance model) doc ?ps = Returned doc'"
    using add_bedrock_picture_descriptions_loop [of h opts model doc descriptions] a by simp
  have n: "n < length ?ps" using a by simp
  have p: "fst (?ps ! n) = ?pics ! n" "snd (?ps ! n) = descriptions ! n" using a by simp_all
  have dist: "distinct (map fst ?ps)"
    by (rule distinct_fst_zip [OF distinct_pictures_to_process])
  have i: "fst (?ps ! n) < length (pictures doc)"
    using pictures_to_process_less [of n h doc] a p by simp
  have acc: "accepted (snd (?ps ! n))" using a p by simp
  from annotations_nth_splice_descriptions [OF run distinct_pictures_to_process] a i p
  show "last (annotations (pictures doc' ! (?pics ! n))) =
      PictureDescriptionData (descriptions ! n) (model_provenance model)"
    by simp
  {
    assume "captions (pictures doc ! (?pics ! n)) = []"
    then have "captions (pictures doc ! fst (?ps ! n)) = []" using p by simp
    from new_caption_splice_descriptions [OF run n dist i acc this]
    show "\<exists>k<length (texts doc').
        captions (pictures doc' ! (?pics ! n)) = [RefItem (self_ref (texts doc' ! k))] \<and>
        label (texts doc' ! k) = CAPTION \<and>
        prefix (''Image Description:'' @ descriptions ! n) (item_text (texts doc' ! k))"
      unfolding p strip_description_prefix by blast
  }
  {
    fix c cs r k
    assume b: "captions (pictures doc ! (?pics ! n)) = c # cs \<and> ref_attr h c = Inr r \<and>
      next_where (\<lambda>t. self_ref t = r) (texts doc) = Some k"
    then have cap: "captions (pictures doc ! fst (?ps ! n)) = c # cs" using p by simp
    from old_caption_splice_descriptions [OF run n dist i acc cap] b
    show "\<exists>before after.
        item_text (texts doc' ! k) = before @ description_prefix @ descriptions ! n @ after \<and>
        prefix (item_text (texts doc ! k)) before"
      unfolding p by blast
  }
qed


theorem descriptions_spliced_into_document_witness:
  "accepted ''A cat'' \<and> accepted ''A dog'' \<and>
   has_returned (add_bedrock_picture_descriptions
     (example_host [(''#/pictures/0'', ''A cat''), (''#/pictures/1'', ''A dog'')])
     example_doc (default_options ()) True) \<and>
   last (annotations (pictures (state_of (add_bedrock_picture_descriptions
     (example_host [(''#/pictures/0'', ''A cat''), (''#/pictures/1'', ''A dog'')])
     example_doc (default_options ()) True)) ! 0)) =
     PictureDescriptionData ''A cat'' ''amazon-bedrock'' \<and>
   (\<exists>k<length (texts (state_of (add_bedrock_picture_descriptions
        (example_host [(''#/pictures/0'', ''A cat''), (''#/pictures/1'', ''A dog'')])
        example_doc (default_options ()) True))).
      captions (pictures (state_of (add_bedrock_picture_descriptions
        (example_host [(''#/pictures/0'', ''A cat''), (''#/pictures/1'', ''A dog'')])
        example_doc (default_options ()) True)) ! 0) =
        [RefItem (self_ref (texts (state_of (add_bedrock_picture_descriptions
          (example_host [(''#/pictures/0'', ''A cat''), (''#/pictures/1'', ''A dog'')])
          example_doc (default_options ()) True)) ! k))] \<and>
      label (texts (state_of (add_bedrock_picture_descriptions
        (example_host [(''#/pictures/0'', ''A cat''), (''#/pictures/1'', ''A dog'')])
        example_doc (default_options ()) True)) ! k) = CAPTION \<and>
      prefix ''Image Description:A cat'' (item_text (texts (state_of (add_bedrock_picture_descriptions
        (example_host [(''#/pictures/0'', ''A cat''), (''#/pictures/1'', ''A dog'')])
        example_doc (default_options ()) True)) ! k))) \<and>
   (\<exists>before after.
      item_text (texts (state_of (add_bedrock_picture_descriptions
        (example_host [(''#/pictures/0'', ''A cat''), (''#/pictures/1'', ''A dog'')])
        example_doc (default_options ()) True)) ! 0) =
        before @ description_prefix @ ''A dog'' @ after \<and>
      prefix ''Figure 1'' before)"
proof -
  let ?t = "[(''#/pictures/0'', ''A cat''), (''#/pictures/1'', ''A dog'')]"
  let ?h = "example_host ?t"
  let ?out = "add_bedrock_picture_descriptions ?h example_doc (default_options ()) True"
  let ?ds = "[''A cat'', ''A dog'']"
  have acc: "accepted ''A cat''" "accepted ''A dog''"
    by (simp_all add: accepted_def startswith_def)
  have total: "\<forall>c. \<exists>r. ref_attr ?h c = Inr r"
    by (simp add: example_host_def)
  have init: "model_init ?h True (default_options ()) = Inr (example_model ?t)"
    by (rule example_model_init)
  have ann: "annotate_images (example_model ?t) (images_to_process ?h example_doc) = Inr ?ds"
    by (simp add: example_batch example_answers answer_def)
  have prov: "model_provenance (example_model ?t) = ''amazon-bedrock''"
    by (simp add: example_model_def)
  have caps: "captions (pictures example_doc ! 0) = []"
    "captions (pictures example_doc ! 1) = RefItem ''#/texts/0'' # []"
    by (simp_all add: example_doc_def example_picture_def)
  have ref: "ref_attr ?h (RefItem ''#/texts/0'') = Inr ''#/texts/0''"
    by (simp add: example_host_def)
  have found: "next_where (\<lambda>t. self_ref t = ''#/texts/0'') (texts example_doc) = Some 0"
    "item_text (texts example_doc ! 0) = ''Figure 1''"
    by (simp_all add: example_doc_def)
  note thm0 = descriptions_spliced_into_document
    [of ?h example_doc "default_options ()" True "example_model ?t" ?ds "state_of ?out" 0]
  note thm1 = descriptions_spliced_into_document
    [of ?h example_doc "default_options ()" True "example_model ?t" ?ds "state_of ?out" 1]
  from thm0 total have ret: "has_returned ?out" by blast
  then have run: "?out = Returned (state_of ?out)" by (rule Returned_state_of)
  have hyp0: "model_init ?h True (default_options ()) = Inr (example_model ?t) \<and>
    annotate_images (example_model ?t) (images_to_process ?h example_doc) = Inr ?ds \<and>
    ?out = Returned (state_of ?out) \<and>
    0 < length (pictures_to_process ?h example_doc) \<and> 0 < length ?ds \<and> accepted (?ds ! 0)"
    using init ann run acc by (simp add: example_batch)
  have hyp1: "model_init ?h True (default_options ()) = Inr (example_model ?t) \<and>
    annotate_images (example_model ?t) (images_to_process ?h example_doc) = Inr ?ds \<and>
    ?out = Returned (state_of ?out) \<and>
    1 < length (pictures_to_process ?h example_doc) \<and> 1 < length ?ds \<and> accepted (?ds ! 1)"
    using init ann run acc by (simp add: example_batch)
  from thm0 hyp0 have a: "last (annotations (pictures (state_of ?out) ! (pictures_to_process ?h example_doc ! 0))) =
        PictureDescriptionData (?ds ! 0) (model_provenance (example_model ?t))"
    and b: "captions (pictures example_doc ! (pictures_to_process ?h example_doc ! 0)) = [] \<longrightarrow>
         (\<exists>k<length (texts (state_of ?out)).
            captions (pictures (state_of ?out) ! (pictures_to_process ?h example_doc ! 0)) =
              [RefItem (self_ref (texts (state_of ?out) ! k))] \<and>
            label (texts (state_of ?out) ! k) = CAPTION \<and>
            prefix (''Image Description:'' @ ?ds ! 0) (item_text (texts (state_of ?out) ! k)))"
    by blast+
  from thm1 hyp1 have c: "\<forall>c cs r k.
         captions (pictures example_doc ! (pictures_to_process ?h example_doc ! 1)) = c # cs \<and>
         ref_attr ?h c = Inr r \<and>
         next_where (\<lambda>t. self_ref t = r) (texts example_doc) = Some k \<longrightarrow>
           (\<exists>before after.
              item_text (texts (state_of ?out) ! k) =
                before @ description_prefix @ ?ds ! 1 @ after \<and>
              prefix (item_text (texts example_doc ! k)) before)"
    by blast
  from a have a': "last (annotations (pictures (state_of ?out) ! 0)) =
      PictureDescriptionData ''A cat'' ''amazon-bedrock''"
    by (simp add: example_batch prov)
  from b caps(1) have b': "\<exists>k<length (texts (state_of ?out)).
      captions (pictures (state_of ?out) ! 0) = [RefItem (self_ref (texts (state_of ?out) ! k))] \<and>
      label (texts (state_of ?out) ! k) = CAPTION \<and>
      prefix ''Image Description:A cat'' (item_text (texts (state_of ?out) ! k))"
    by (simp add: example_batch)
  from c [rule_format, of "RefItem ''#/texts/0''" "[]" "''#/texts/0''" 0] caps(2) ref found
  have c': "\<exists>before after.
      item_text (texts (state_of ?out) ! 0) = before @ description_prefix @ ''A dog'' @ after \<and>
      prefix ''Figure 1'' before"
    by (simp add: example_batch)
  from acc ret a' b' c' show ?thesis by blast
qed

lemma captions_kept_add:
  assumes "j < length (pictures doc)" and "captions (pictures doc ! j) \<noteq> []"
  shows "captions (pictures (state_of (add_bedrock_picture_descriptions h doc opts ers)) ! j) =
           captions (pictures doc ! j)"
  using add_bedrock_picture_descriptions_cases [of h doc opts ers]
    captions_kept_splice_descriptions [OF assms]
  by auto

text \<open>
  C5 as stated fails: the only picture of the document has a caption and receives the
  description \<^verbatim>\<open>A dog\<close> as an annotation, and its list of caption references is
  afterwards what it was, on a host whose \<^verbatim>\<open>RefItem\<close> answers to \<^verbatim>\<open>ref\<close> and on one
  whose \<^verbatim>\<open>RefItem\<close> does not.
\<close>

theorem captioned_picture_gets_no_reference:
  "captions (pictures captioned_doc ! 0) = [RefItem ''#/texts/0''] \<and>
   annotations (pictures (state_of (add_bedrock_picture_descriptions
     (example_host [(''#/pictures/0'', ''A dog'')]) captioned_doc (default_options ()) True)) ! 0) =
     [PictureDescriptionData ''A dog'' ''amazon-bedrock''] \<and>
   captions (pictures (state_of (add_bedrock_picture_descriptions
     (example_host [(''#/pictures/0'', ''A dog'')]) captioned_doc (default_options ()) True)) ! 0) =
     [RefItem ''#/texts/0''] \<and>
   annotations (pictures (state_of (add_bedrock_picture_descriptions
     (strict_host [(''#/pictures/0'', ''A dog'')]) captioned_doc (default_options ()) True)) ! 0) =
     [PictureDescriptionData ''A dog'' ''amazon-bedrock''] \<and>
   captions (pictures (state_of (add_bedrock_picture_descriptions
     (strict_host [(''#/pictures/0'', ''A dog'')]) captioned_doc (default_options ()) True)) ! 0) =
     [RefItem ''#/texts/0'']"
proof (intro conjI)
  show "captions (pictures captioned_doc ! 0) = [RefItem ''#/texts/0'']"
    by code_simp
  show "annotations (pictures (state_of (add_bedrock_picture_descriptions
     (example_host [(''#/pictures/0'', ''A dog'')]) captioned_doc (default_options ()) True)) ! 0) =
     [PictureDescriptionData ''A dog'' ''amazon-bedrock'']"
    by code_simp
  show "captions (pictures (state_of (add_bedrock_picture_descriptions
     (example_host [(''#/pictures/0'', ''A dog'')]) captioned_doc (default_options ()) True)) ! 0) =
     [RefItem ''#/texts/0'']"
    by code_simp
  show "annotations (pictures (state_of (add_bedrock_picture_descriptions
     (strict_host [(''#/pictures/0'', ''A dog'')]) captioned_doc (default_options ()) True)) ! 0) =
     [PictureDescriptionData ''A dog'' ''amazon-bedrock'']"
    by code_simp
  show "captions (pictures (state_of (add_bedrock_picture_descriptions
     (strict_host [(''#/pictures/0'', ''A dog'')]) captioned_doc (default_options ()) True)) ! 0) =
     [RefItem ''#/texts/0'']"
    by code_simp
qed

text \<open>
  C5, amended. A picture that receives a description and has no caption yet gets one
  caption reference, which names a caption text that the call has added to the
  document; a picture that already has a caption keeps its caption references as they
  are.
\<close>

theorem caption_reference_appended:
  "model_init h True opts = Inr model \<and>
   annotate_images model (images_to_process h doc) = Inr descriptions \<and>
   n < length (pictures_to_process h doc) \<and> n < length descriptions \<and>
   accepted (descriptions ! n) \<longrightarrow>
     (captions (pictures doc ! (pictures_to_process h doc ! n)) = [] \<and>
      add_bedrock_picture_descriptions h doc opts True = Returned doc' \<longrightarrow>
        (\<exists>k. length (texts doc) \<le> k \<and> k < length (texts doc') \<and>
           label (texts doc' ! k) = CAPTION \<and>
           self_ref (texts doc' ! k) = ''#/texts/'' @ str_nat k \<and>
           captions (pictures doc' ! (pictures_to_process h doc ! n)) =
             [RefItem (self_ref (texts doc' ! k))])) \<and>
     (captions (pictures doc ! (pictures_to_process h doc ! n)) \<noteq> [] \<longrightarrow>
        captions (pictures (state_of (add_bedrock_picture_descriptions h doc opts True)) !
            (pictures_to_process h doc ! n)) =
          captions (pictures doc ! (pictures_to_process h doc ! n)))"
proof (intro conjI impI)
  let ?pics = "pictures_to_process h doc"
  let ?ps = "zip ?pics descriptions"
  assume a: "model_init h True opts = Inr model \<and>
    annotate_images model (images_to_process h doc) = Inr descriptions \<and>
    n < length ?pics \<and> n < length descriptions \<and> accepted (descriptions ! n)"
  have i: "?pics ! n < length (pictures doc)"
    using pictures_to_process_less [of n h doc] a by simp
  {
    assume b: "captions (pictures doc ! (?pics ! n)) = [] \<and>
      add_bedrock_picture_descriptions h doc opts True = Returned doc'"
    have run: "splice_descriptions h (model_provenance model) doc ?ps = Returned doc'"
      using add_bedrock_picture_descriptions_loop [of h opts model doc descriptions] a b by simp
    have n: "n < length ?ps" using a by simp
    have p: "fst (?ps ! n) = ?pics ! n" "snd (?ps ! n) = descriptions ! n" using a by simp_all
    have dist: "distinct (map fst ?ps)"
      by (rule distinct_fst_zip [OF distinct_pictures_to_process])
    have i': "fst (?ps ! n) < length (pictures doc)" using i p by simp
    have acc: "accepted (snd (?ps ! n))" using a p by simp
    have nocap: "captions (pictures doc ! fst (?ps ! n)) = []" using b p by simp
    from new_caption_splice_descriptions [OF run n dist i' acc nocap]
    obtain k where "length (texts doc) \<le> k" "k < length (texts doc')"
      "captions (pictures doc' ! fst (?ps ! n)) = [RefItem (self_ref (texts doc' ! k))]"
      "self_ref (texts doc' ! k) = ''#/texts/'' @ str_nat k"
      "label (texts doc' ! k) = CAPTION"
      by blast
    then have "length (texts doc) \<le> k \<and> k < length (texts doc') \<and>
        label (texts doc' ! k) = CAPTION \<and>
        self_ref (texts doc' ! k) = ''#/texts/'' @ str_nat k \<and>
        captions (pictures doc' ! (?pics ! n)) = [RefItem (self_ref (texts doc' ! k))]"
      unfolding p by (intro conjI)
    then show "\<exists>k. length (texts doc) \<le> k \<and> k < length (texts doc') \<and>
        label (texts doc' ! k) = CAPTION \<and>
        self_ref (texts doc' ! k) = ''#/texts/'' @ str_nat k \<and>
        captions (pictures doc' ! (?pics ! n)) = [RefItem (self_ref (texts doc' ! k))]"
      by (rule exI)
  }
  {
    assume "captions (pictures doc ! (?pics ! n)) \<noteq> []"
    with i show "captions (pictures (state_of (add_bedrock_picture_descriptions h doc opts True)) ! (?pics ! n)) =
        captions (pictures doc ! (?pics ! n))"
      by (rule captions_kept_add)
  }
qed

theorem caption_reference_appended_witness:
  "accepted ''A cat'' \<and>
   captions (pictures plain_doc ! 0) = [] \<and> length (texts plain_doc) = 0 \<and>
   (\<exists>k. k < length (texts (state_of (add_bedrock_picture_descriptions
          (example_host [(''#/pictures/0'', ''A cat'')]) plain_doc (default_options ()) True))) \<and>
      label (texts (state_of (add_bedrock_picture_descriptions
          (example_host [(''#/pictures/0'', ''A cat'')]) plain_doc (default_options ()) True)) ! k)
        = CAPTION \<and>
      captions (pictures (state_of (add_bedrock_picture_descriptions
          (example_host [(''#/pictures/0'', ''A cat'')]) plain_doc (default_options ()) True)) ! 0) =
        [RefItem (self_ref (texts (state_of (add_bedrock_picture_descriptions
          (example_host [(''#/pictures/0'', ''A cat'')]) plain_doc (default_options ()) True)) ! k))]) \<and>
   captions (pictures (state_of (add_bedrock_picture_descriptions
          (example_host [(''#/pictures/0'', ''A cat'')]) plain_doc (default_options ()) True)) ! 0) =
     [RefItem ''#/texts/0''] \<and>
   captions (pictures (state_of (add_bedrock_picture_descriptions
          (strict_host [(''#/pictures/0'', ''A cat'')]) captioned_doc (default_options ()) True)) ! 0) =
     [RefItem ''#/texts/0'']"
proof -
  let ?t = "[(''#/pictures/0'', ''A cat'')]"
  let ?h = "example_host ?t"
  let ?s = "strict_host ?t"
  let ?out = "add_bedrock_picture_descriptions ?h plain_doc (default_options ()) True"
  have acc: "accepted ''A cat''"
    by (simp add: accepted_def startswith_def)
  have ann: "annotate_images (example_model ?t) (images_to_process ?h plain_doc) = Inr [''A cat'']"
    "annotate_images (example_model ?t) (images_to_process ?s captioned_doc) = Inr [''A cat'']"
    by (simp_all add: single_batch example_answers answer_def)
  have caps: "captions (pictures plain_doc ! 0) = []" "length (texts plain_doc) = 0"
    "captions (pictures captioned_doc ! 0) = [RefItem ''#/texts/0'']"
    by (simp_all add: plain_doc_def captioned_doc_def example_doc_def example_picture_def)
  have "has_returned ?out" by (rule example_host_returns)
  then have run: "?out = Returned (state_of ?out)" by (rule Returned_state_of)
  from caption_reference_appended
    [of ?h "default_options ()" "example_model ?t" plain_doc "[''A cat'']" 0 "state_of ?out"]
    example_model_init(1) [of ?t True "default_options ()"] ann(1) acc caps(1) run
  have new: "\<exists>k. length (texts plain_doc) \<le> k \<and> k < length (texts (state_of ?out)) \<and>
      label (texts (state_of ?out) ! k) = CAPTION \<and>
      self_ref (texts (state_of ?out) ! k) = ''#/texts/'' @ str_nat k \<and>
      captions (pictures (state_of ?out) ! 0) = [RefItem (self_ref (texts (state_of ?out) ! k))]"
    by (simp add: single_batch)
  from caption_reference_appended
    [of ?s "default_options ()" "example_model ?t" captioned_doc "[''A cat'']" 0 "state_of ?out"]
    example_model_init(2) [of ?t True "default_options ()"] ann(2) acc caps(3)
  have kept: "captions (pictures (state_of (add_bedrock_picture_descriptions ?s captioned_doc
      (default_options ()) True)) ! 0) = [RefItem ''#/texts/0'']"
    by (simp add: single_batch)
  have val: "captions (pictures (state_of ?out) ! 0) = [RefItem ''#/texts/0'']"
    by code_simp
  from new have "\<exists>k. k < length (texts (state_of ?out)) \<and>
      label (texts (state_of ?out) ! k) = CAPTION \<and>
      captions (pictures (state_of ?out) ! 0) = [RefItem (self_ref (texts (state_of ?out) ! k))]"
    by blast
  with acc caps(1,2) val kept show ?thesis by blast
qed

text \<open>
  C6. With the adapter's constructor as the spec has it, every annotation that the
  call adds to a picture is a \<^verbatim>\<open>PictureDescriptionData\<close> whose provenance is the
  provenance tag of the options, and the tag of the default options is
  \<^verbatim>\<open>amazon-bedrock\<close>.
\<close>

theorem provenance_tag_recorded:
  "(model_init h = PictureDescriptionBedrockApiModel fails annotate \<and>
    j < length (pictures doc) \<longrightarrow>
      (\<exists>ds. annotations (pictures (state_of (add_bedrock_picture_descriptions h doc opts ers)) ! j) =
             annotations (pictures doc ! j) @
               map (\<lambda>d. PictureDescriptionData d (provenance opts)) ds)) \<and>
   provenance (default_options b) = ''amazon-bedrock''"
proof (intro conjI impI)
  assume a: "model_init h = PictureDescriptionBedrockApiModel fails annotate \<and>
    j < length (pictures doc)"
  have "model_provenance m = provenance opts" if "model_init h True opts = Inr m" for m
    using that a by (auto simp: PictureDescriptionBedrockApiModel_def split: option.splits)
  with a show "\<exists>ds. annotations (pictures (state_of (add_bedrock_picture_descriptions h doc opts ers)) ! j) =
      annotations (pictures doc ! j) @ map (\<lambda>d. PictureDescriptionData d (provenance opts)) ds"
    by (intro annotations_grow_add) simp_all
next
  show "provenance (default_options b) = ''amazon-bedrock''"
    by (simp add: default_options_def)
qed

theorem provenance_tag_recorded_witness:
  "(\<exists>ds. annotations (pictures (state_of (add_bedrock_picture_descriptions
       ((example_host []) \<lparr> model_init := PictureDescriptionBedrockApiModel (\<lambda>ers options. None)
            (\<lambda>options imgs. Inr (map (answer [(''#/pictures/0'', ''A cat'')]) imgs)) \<rparr>)
       example_doc ((default_options ()) \<lparr> provenance := ''bedrock-eu'' \<rparr>) True)) ! 0) =
     [OtherAnnotation ''classification''] @ map (\<lambda>d. PictureDescriptionData d ''bedrock-eu'') ds) \<and>
   annotations (pictures (state_of (add_bedrock_picture_descriptions
       ((example_host []) \<lparr> model_init := PictureDescriptionBedrockApiModel (\<lambda>ers options. None)
            (\<lambda>options imgs. Inr (map (answer [(''#/pictures/0'', ''A cat'')]) imgs)) \<rparr>)
       example_doc ((default_options ()) \<lparr> provenance := ''bedrock-eu'' \<rparr>) True)) ! 0) =
     [OtherAnnotation ''classification'', PictureDescriptionData ''A cat'' ''bedrock-eu''] \<and>
   provenance (default_options ()) = ''amazon-bedrock''"
proof -
  let ?init = "PictureDescriptionBedrockApiModel (\<lambda>ers options. None)
      (\<lambda>options imgs. Inr (map (answer [(''#/pictures/0'', ''A cat'')]) imgs))"
  let ?h = "(example_host []) \<lparr> model_init := ?init \<rparr>"
  let ?opts = "(default_options ()) \<lparr> provenance := ''bedrock-eu'' \<rparr>"
  have init: "model_init ?h = ?init" by simp
  have len: "0 < length (pictures example_doc)" by (simp add: example_doc_def)
  have old: "annotations (pictures example_doc ! 0) = [OtherAnnotation ''classification'']"
    by (simp add: example_doc_def example_picture_def)
  have tag: "provenance ?opts = ''bedrock-eu''" by simp
  from provenance_tag_recorded [of ?h "\<lambda>ers options. None"
      "\<lambda>options imgs. Inr (map (answer [(''#/pictures/0'', ''A cat'')]) imgs)" 0 example_doc ?opts True "()"]
    init len
  have grow: "\<exists>ds. annotations (pictures (state_of (add_bedrock_picture_descriptions ?h example_doc ?opts True)) ! 0) =
      annotations (pictures example_doc ! 0) @ map (\<lambda>d. PictureDescriptionData d (provenance ?opts)) ds"
    and dflt: "provenance (default_options ()) = ''amazon-bedrock''"
    by blast+
  have val: "annotations (pictures (state_of (add_bedrock_picture_descriptions ?h example_doc ?opts True)) ! 0) =
     [OtherAnnotation ''classification'', PictureDescriptionData ''A cat'' ''bedrock-eu'']"
    by code_simp
  from grow have "\<exists>ds. annotations (pictures (state_of (add_bedrock_picture_descriptions ?h example_doc ?opts True)) ! 0) =
      [OtherAnnotation ''classification''] @ map (\<lambda>d. PictureDescriptionData d ''bedrock-eu'') ds"
    unfolding old tag .
  with val dflt show ?thesis by blast
qed

end
